theory Spec2Isabelle
  imports Complex_Main
begin

section \<open>Cost projections: the entry point and the MESSAGE record builder\<close>

text \<open>
  A shallow embedding of \<^verbatim>\<open>message_ix_models/tools/costs/projections.py\<close>.

  \<^item> A Python \<^verbatim>\<open>str\<close> is a \<^typ>\<open>string\<close>; only ASCII letters have a case here.
  \<^item> A Python \<^verbatim>\<open>float\<close> is a \<^typ>\<open>real\<close>: arithmetic is exact, rounding is not modelled.
    A missing value (NaN) that a left merge produces is \<^term>\<open>None\<close>.
  \<^item> A raised exception is \<^term>\<open>Inl e\<close>, a returned value is \<^term>\<open>Inr v\<close>.
  \<^item> A dataframe is its list of column labels and its list of rows, in order; the row
    index, which every result resets, is the position in the list.
  \<^item> The calls of \<^verbatim>\<open>print\<close> write to standard output only and are left out.
\<close>

subsection \<open>Exceptions and strings\<close>

datatype error = ValueError | IndexError | TypeError | StageError string

text \<open>\<^verbatim>\<open>str.upper()\<close> on ASCII text: the letters a to z are mapped to A to Z.\<close>

definition char_upper :: "char \<Rightarrow> char" where
  "char_upper c =
     (case map_of (zip ''abcdefghijklmnopqrstuvwxyz'' ''ABCDEFGHIJKLMNOPQRSTUVWXYZ'') c of
        Some u \<Rightarrow> u
      | None \<Rightarrow> c)"

definition str_upper :: "string \<Rightarrow> string" where
  "str_upper s = map char_upper s"

subsection \<open>The entry point \<^verbatim>\<open>get_cost_projections\<close>\<close>

text \<open>
  The five stages that the entry point calls live in modules
  (\<^verbatim>\<open>weo\<close>, \<^verbatim>\<open>learning\<close>, \<^verbatim>\<open>gdp\<close>, \<^verbatim>\<open>splines\<close>) that are imported, not defined, by
  \<^verbatim>\<open>projections.py\<close>. They are parameters of the model: each takes the arguments the
  entry point passes, in the order it passes them, and returns a dataframe or raises.
\<close>

record ('a, 'b, 'c, 'd, 'e) stages =
  get_weo_region_differentiated_costs :: "string \<Rightarrow> string \<Rightarrow> int \<Rightarrow> error + 'a"
  project_ref_region_inv_costs_using_learning_rates ::
    "'a \<Rightarrow> string \<Rightarrow> string \<Rightarrow> int \<Rightarrow> error + 'b"
  calculate_gdp_adjusted_region_cost_ratios :: "'a \<Rightarrow> string \<Rightarrow> string \<Rightarrow> int \<Rightarrow> error + 'c"
  project_all_inv_costs :: "'a \<Rightarrow> 'b \<Rightarrow> 'c \<Rightarrow> int \<Rightarrow> string \<Rightarrow> string \<Rightarrow> error + 'd"
  get_final_inv_and_fom_costs :: "'d \<Rightarrow> string \<Rightarrow> error + 'e"

text \<open>The entry point returns either a plain string or a dataframe.\<close>

datatype 'e outcome = Message string | Frame 'e

definition valid_nodes :: "string list" where
  "valid_nodes = [''R11'', ''R12'', ''R20'']"

definition invalid_node_message :: string where
  "invalid_node_message = ''Please select a valid spatial resolution: R11, R12, or R20''"

text \<open>
  Lines 49 to 57: the reference region after the defaults are applied. With no region
  given, three independent tests on the upper-cased node assign the default; a given
  region is upper-cased.
\<close>

definition resolve_ref_region :: "string \<Rightarrow> string option \<Rightarrow> string option" where
  "resolve_ref_region node_up sel_ref_region =
     (case sel_ref_region of
        None \<Rightarrow>
          (let r = None;
               r = (if node_up = ''R11'' then Some ''R11_NAM'' else r);
               r = (if node_up = ''R12'' then Some ''R12_NAM'' else r);
               r = (if node_up = ''R20'' then Some ''R20_NAM'' else r)
           in r)
      | Some given \<Rightarrow> Some (str_upper given))"

text \<open>
  Lines 68 to 99: the five stages in sequence. The node handed on is \<^verbatim>\<open>sel_node\<close> as the
  caller wrote it, not its upper-cased form.
\<close>

definition run_stages ::
  "('a, 'b, 'c, 'd, 'e) stages \<Rightarrow> string \<Rightarrow> string \<Rightarrow> int \<Rightarrow> string \<Rightarrow> string \<Rightarrow> string \<Rightarrow> int
     \<Rightarrow> error + 'e outcome" where
  "run_stages st sel_node sel_ref_region sel_base_year sel_scenario_version sel_scenario
       sel_method sel_convergence_year =
     (case get_weo_region_differentiated_costs st sel_node sel_ref_region sel_base_year of
        Inl e \<Rightarrow> Inl e
      | Inr df_region_diff \<Rightarrow>
     (case project_ref_region_inv_costs_using_learning_rates st df_region_diff sel_node
             sel_ref_region sel_base_year of
        Inl e \<Rightarrow> Inl e
      | Inr df_ref_reg_learning \<Rightarrow>
     (case calculate_gdp_adjusted_region_cost_ratios st df_region_diff sel_node
             sel_ref_region sel_base_year of
        Inl e \<Rightarrow> Inl e
      | Inr df_adj_cost_ratios \<Rightarrow>
     (case project_all_inv_costs st df_region_diff df_ref_reg_learning df_adj_cost_ratios
             sel_convergence_year sel_scenario_version sel_scenario of
        Inl e \<Rightarrow> Inl e
      | Inr df_all_inv \<Rightarrow>
     (case get_final_inv_and_fom_costs st df_all_inv sel_method of
        Inl e \<Rightarrow> Inl e
      | Inr df_inv_fom \<Rightarrow> Inr (Frame df_inv_fom))))))"

text \<open>
  The whole function. Were no reference region resolved, the first \<^verbatim>\<open>print\<close> would
  concatenate a string with \<^verbatim>\<open>None\<close> and raise \<^verbatim>\<open>TypeError\<close>. The argument
  \<^verbatim>\<open>sel_format\<close> is accepted and never read.
\<close>

definition get_cost_projections ::
  "('a, 'b, 'c, 'd, 'e) stages \<Rightarrow> string \<Rightarrow> string option \<Rightarrow> int \<Rightarrow> string \<Rightarrow> string \<Rightarrow> string
     \<Rightarrow> int \<Rightarrow> string \<Rightarrow> error + 'e outcome" where
  "get_cost_projections st sel_node sel_ref_region sel_base_year sel_scenario_version
       sel_scenario sel_method sel_convergence_year sel_format =
     (let node_up = str_upper sel_node in
      if node_up \<notin> set valid_nodes then Inr (Message invalid_node_message)
      else
        (case resolve_ref_region node_up sel_ref_region of
           None \<Rightarrow> Inl TypeError
         | Some ref_region \<Rightarrow>
             run_stages st sel_node ref_region sel_base_year sel_scenario_version
               sel_scenario sel_method sel_convergence_year))"

text \<open>A stage record for concrete runs: every stage hands on the reference region it got.\<close>

definition echo_stages :: "(string, string, string, string, string) stages" where
  "echo_stages =
     \<lparr>get_weo_region_differentiated_costs = (\<lambda>input_node input_ref_region input_base_year.
        Inr input_ref_region),
      project_ref_region_inv_costs_using_learning_rates = (\<lambda>df n r b. Inr df),
      calculate_gdp_adjusted_region_cost_ratios = (\<lambda>df n r b. Inr df),
      project_all_inv_costs = (\<lambda>df l g c v s. Inr df),
      get_final_inv_and_fom_costs = (\<lambda>df m. Inr df)\<rparr>"

subsection \<open>Dataframes\<close>

text \<open>
  The rows of the projection that \<^verbatim>\<open>create_message_inputs\<close> receives, with the columns
  it reads; further columns of the input are dropped by the final \<^verbatim>\<open>reindex\<close>.
\<close>

record proj_row =
  scenario_version :: string
  scenario :: string
  message_technology :: string
  region :: string
  year :: int
  inv_cost :: real
  fix_cost :: real

text \<open>The rows of the two results, with the columns in the order of the \<^verbatim>\<open>reindex\<close>.\<close>

record inv_row =
  scenario_version :: string
  scenario :: string
  node_loc :: string
  technology :: string
  year_vtg :: int
  "value" :: real
  unit :: string

record fix_row =
  scenario_version :: string
  scenario :: string
  node_loc :: string
  technology :: string
  year_vtg :: int
  year_act :: int
  "value" :: "real option"
  unit :: string

record 'r frame =
  columns :: "string list"
  rows :: "'r list"

text \<open>\<^verbatim>\<open>Series.unique()\<close>: the distinct values in the order of their first appearance.\<close>

definition unique :: "'a list \<Rightarrow> 'a list" where
  "unique xs = rev (remdups (rev xs))"

text \<open>
  \<^verbatim>\<open>pd.concat\<close> raises \<^verbatim>\<open>ValueError\<close> on an empty list of frames. Otherwise the rows
  follow one another and the columns are the union of the frames' columns, in the order
  of their first appearance.
\<close>

definition pd_concat :: "'r frame list \<Rightarrow> error + 'r frame" where
  "pd_concat objs =
     (if objs = [] then Inl ValueError
      else Inr \<lparr>columns = unique (concat (map columns objs)),
                rows = concat (map rows objs)\<rparr>)"

text \<open>\<^verbatim>\<open>DataFrame.query\<close> with a row predicate keeps the rows that satisfy it.\<close>

definition query :: "('r \<Rightarrow> bool) \<Rightarrow> 'r frame \<Rightarrow> 'r frame" where
  "query p df = df\<lparr>rows := filter p (rows df)\<rparr>"

text \<open>\<^verbatim>\<open>.assign(year=y)\<close> overwrites the year of every row.\<close>

definition assign_year :: "int \<Rightarrow> proj_row frame \<Rightarrow> proj_row frame" where
  "assign_year y df = df\<lparr>rows := map (\<lambda>r. r\<lparr>year := y\<rparr>) (rows df)\<rparr>"

text \<open>\<^verbatim>\<open>.values[0]\<close> raises \<^verbatim>\<open>IndexError\<close> on an empty column.\<close>

definition first_value :: "'a list \<Rightarrow> error + 'a" where
  "first_value vs = (case vs of [] \<Rightarrow> Inl IndexError | v # _ \<Rightarrow> Inr v)"

text \<open>\<^verbatim>\<open>range(start, stop, step)\<close> for a positive step, and \<^verbatim>\<open>range(start, stop)\<close>.\<close>

definition range_step :: "int \<Rightarrow> int \<Rightarrow> int \<Rightarrow> int list" where
  "range_step start stop step =
     map (\<lambda>n. start + int n * step) [0 ..< nat ((stop - start + step - 1) div step)]"

definition range_py :: "int \<Rightarrow> int \<Rightarrow> int list" where
  "range_py start stop = [start .. stop - 1]"

text \<open>
  A loop \<^verbatim>\<open>for x in xs: l.append(f(x))\<close> whose body may raise: the first exception ends
  the loop.
\<close>

fun for_each :: "('a \<Rightarrow> error + 'b) \<Rightarrow> 'a list \<Rightarrow> error + 'b list" where
  "for_each f [] = Inr []"
| "for_each f (x # xs) =
     (case f x of
        Inl e \<Rightarrow> Inl e
      | Inr y \<Rightarrow> (case for_each f xs of Inl e \<Rightarrow> Inl e | Inr ys \<Rightarrow> Inr (y # ys)))"

subsection \<open>The record builder \<^verbatim>\<open>create_message_inputs\<close>\<close>

text \<open>
  \<^verbatim>\<open>BASE_YEAR\<close> and \<^verbatim>\<open>LAST_MODEL_YEAR\<close> are imported from the module \<^verbatim>\<open>config\<close>, which
  \<^verbatim>\<open>projections.py\<close> does not define; they are parameters here. The years 2020, 2100
  and 2110 and the rate 0.0025 are literals of the function itself.
\<close>

definition HORIZON_START :: int where
  "HORIZON_START = 1960"

definition HORIZON_END :: int where
  "HORIZON_END = 2110"

definition smaller_than :: "int list \<Rightarrow> int \<Rightarrow> int list" where
  "smaller_than sequence v = [item \<leftarrow> sequence. item < v]"

definition larger_than :: "int list \<Rightarrow> int \<Rightarrow> int list" where
  "larger_than sequence v = [item \<leftarrow> sequence. item > v]"

definition seq_years :: "int list" where
  "seq_years = range_step HORIZON_START (HORIZON_END + 5) 5"

definition hist_years :: "int \<Rightarrow> int list" where
  "hist_years BASE_YEAR = smaller_than seq_years (BASE_YEAR - 5)"

definition fut_years :: "int \<Rightarrow> int list" where
  "fut_years LAST_MODEL_YEAR = larger_than seq_years LAST_MODEL_YEAR"

text \<open>Lines 139 to 142: the rows of one (version, scenario, technology, region).\<close>

definition tech :: "proj_row frame \<Rightarrow> string \<Rightarrow> string \<Rightarrow> string \<Rightarrow> string \<Rightarrow> proj_row frame" where
  "tech df_proj h i j k =
     query (\<lambda>r. proj_row.scenario_version r = h \<and> proj_row.scenario r = i \<and>
                 message_technology r = j \<and> region r = k) df_proj"

text \<open>
  Lines 144 to 159: the 2020 rows restamped with every historical year, the rows of the
  group as they are, and the 2100 rows restamped with every future year.
\<close>

definition costs_tot :: "int \<Rightarrow> int \<Rightarrow> proj_row frame \<Rightarrow> error + proj_row frame" where
  "costs_tot BASE_YEAR LAST_MODEL_YEAR tec =
     (let l_hist = map (\<lambda>y. assign_year y (query (\<lambda>r. year r = 2020) tec))
                     (hist_years BASE_YEAR);
          l_fut = map (\<lambda>y. assign_year y (query (\<lambda>r. year r = 2100) tec))
                    (fut_years LAST_MODEL_YEAR)
      in case pd_concat l_hist of
           Inl e \<Rightarrow> Inl e
         | Inr costs_hist \<Rightarrow>
             (case pd_concat l_fut of
                Inl e \<Rightarrow> Inl e
              | Inr costs_fut \<Rightarrow> pd_concat [costs_hist, tec, costs_fut]))"

text \<open>Lines 161 to 179: one investment-cost record for every row of \<^verbatim>\<open>costs_tot\<close>.\<close>

definition inv_columns :: "string list" where
  "inv_columns = [''scenario_version'', ''scenario'', ''node_loc'', ''technology'',
                  ''year_vtg'', ''value'', ''unit'']"

definition inv_record :: "proj_row \<Rightarrow> inv_row" where
  "inv_record x =
     \<lparr>inv_row.scenario_version = proj_row.scenario_version x,
      scenario = proj_row.scenario x,
      node_loc = region x,
      technology = message_technology x,
      year_vtg = year x,
      value = inv_cost x,
      unit = ''USD/kWa''\<rparr>"

definition tech_inv :: "proj_row frame \<Rightarrow> inv_row frame" where
  "tech_inv ct = \<lparr>columns = inv_columns, rows = map inv_record (rows ct)\<rparr>"

text \<open>
  Lines 199 to 202: the initial value of vintage \<^verbatim>\<open>y\<close>, read from the rows \<^verbatim>\<open>fom\<close> of
  \<^verbatim>\<open>costs_tot\<close> whose year is at least \<^verbatim>\<open>y\<close>.
\<close>

definition init_val :: "proj_row frame \<Rightarrow> int \<Rightarrow> error + real" where
  "init_val fom y =
     (if y \<le> 2020 then first_value (map fix_cost (rows (query (\<lambda>r. year r = 2020) fom)))
      else first_value (map fix_cost (rows (query (\<lambda>r. year r = y) fom))))"

text \<open>
  Lines 205 to 207: the frame \<^verbatim>\<open>d\<close>, one pair (year, val) for every year from \<^verbatim>\<open>y\<close> to
  2110.
\<close>

definition decay_frame :: "int \<Rightarrow> real \<Rightarrow> (int \<times> real) list" where
  "decay_frame y iv =
     map (\<lambda>yr. (yr, iv * (1 - 0.0025) ^ nat (yr - y))) (range_py y 2111)"

text \<open>
  Lines 209 to 231: the fixed-cost record of a row \<^verbatim>\<open>x\<close> for vintage \<^verbatim>\<open>y\<close>. The left
  merge on the year finds the one pair of \<^verbatim>\<open>d\<close> with the row's year, or leaves \<^verbatim>\<open>val\<close>
  missing; \<^verbatim>\<open>np.where\<close> takes the row's own fixed cost up to 2020 and \<^verbatim>\<open>val\<close> after.
\<close>

definition fix_columns :: "string list" where
  "fix_columns = [''scenario_version'', ''scenario'', ''node_loc'', ''technology'',
                  ''year_vtg'', ''year_act'', ''value'', ''unit'']"

definition fix_record :: "int \<Rightarrow> real \<Rightarrow> proj_row \<Rightarrow> fix_row" where
  "fix_record y iv x =
     \<lparr>fix_row.scenario_version = proj_row.scenario_version x,
      scenario = proj_row.scenario x,
      node_loc = region x,
      technology = message_technology x,
      year_vtg = y,
      year_act = year x,
      value = (if year x \<le> 2020 then Some (fix_cost x)
               else map_of (decay_frame y iv) (year x)),
      unit = ''USD/kWa''\<rparr>"

text \<open>Lines 183 to 231: the body of the loop over the vintage years.\<close>

definition fom_updated :: "proj_row frame \<Rightarrow> int \<Rightarrow> error + fix_row frame" where
  "fom_updated ct y =
     (let fom = query (\<lambda>r. year r \<ge> y) ct in
      case init_val fom y of
        Inl e \<Rightarrow> Inl e
      | Inr iv \<Rightarrow> Inr \<lparr>columns = fix_columns, rows = map (fix_record y iv) (rows fom)\<rparr>)"

text \<open>Lines 127 to 238: the body of the loop over the product of the unique values.\<close>

definition tech_results ::
  "int \<Rightarrow> int \<Rightarrow> proj_row frame \<Rightarrow> string \<times> string \<times> string \<times> string
     \<Rightarrow> error + (inv_row frame \<times> fix_row frame)" where
  "tech_results BASE_YEAR LAST_MODEL_YEAR df_proj = (\<lambda>(h, i, j, k).
     case costs_tot BASE_YEAR LAST_MODEL_YEAR (tech df_proj h i j k) of
       Inl e \<Rightarrow> Inl e
     | Inr ct \<Rightarrow>
         (case for_each (fom_updated ct) seq_years of
            Inl e \<Rightarrow> Inl e
          | Inr l_fom_updated \<Rightarrow>
              (case pd_concat l_fom_updated of
                 Inl e \<Rightarrow> Inl e
               | Inr tech_fom \<Rightarrow> Inr (tech_inv ct, tech_fom))))"

text \<open>\<^verbatim>\<open>itertools.product\<close> of the four lists of unique values: the last varies fastest.\<close>

definition groups :: "proj_row frame \<Rightarrow> (string \<times> string \<times> string \<times> string) list" where
  "groups df_proj =
     (let un_vers = unique (map proj_row.scenario_version (rows df_proj));
          un_scen = unique (map proj_row.scenario (rows df_proj));
          un_tech = unique (map message_technology (rows df_proj));
          un_reg = unique (map region (rows df_proj))
      in [(h, i, j, k). h \<leftarrow> un_vers, i \<leftarrow> un_scen, j \<leftarrow> un_tech, k \<leftarrow> un_reg])"

definition create_message_inputs ::
  "int \<Rightarrow> int \<Rightarrow> proj_row frame \<Rightarrow> error + (inv_row frame \<times> fix_row frame)" where
  "create_message_inputs BASE_YEAR LAST_MODEL_YEAR df_proj =
     (case for_each (tech_results BASE_YEAR LAST_MODEL_YEAR df_proj) (groups df_proj) of
        Inl e \<Rightarrow> Inl e
      | Inr l \<Rightarrow>
          (case pd_concat (map fst l) of
             Inl e \<Rightarrow> Inl e
           | Inr msg_inv \<Rightarrow>
               (case pd_concat (map snd l) of
                  Inl e \<Rightarrow> Inl e
                | Inr msg_fom \<Rightarrow> Inr (msg_inv, msg_fom))))"

subsection \<open>Keys, complete projections and a sample projection\<close>

text \<open>
  The (version, scenario, technology, region) of a row, for the input and for the two
  results; a projection in which every combination has a record for every model year
  from 2020 to 2100; and a sample projection of one technology in one region, falling
  from 1000 to 840 (investment) and from 100 to 20 (fixed cost).
\<close>

definition proj_key :: "proj_row \<Rightarrow> string \<times> string \<times> string \<times> string" where
  "proj_key r = (proj_row.scenario_version r, proj_row.scenario r, message_technology r, region r)"

definition inv_key :: "inv_row \<Rightarrow> string \<times> string \<times> string \<times> string" where
  "inv_key r = (inv_row.scenario_version r, inv_row.scenario r, inv_row.technology r, inv_row.node_loc r)"

definition fix_key :: "fix_row \<Rightarrow> string \<times> string \<times> string \<times> string" where
  "fix_key r = (fix_row.scenario_version r, fix_row.scenario r, fix_row.technology r, fix_row.node_loc r)"

definition complete_projection :: "proj_row frame \<Rightarrow> bool" where
  "complete_projection df \<longleftrightarrow>
     rows df \<noteq> [] \<and>
     list_all (\<lambda>g. list_all (\<lambda>y. list_ex (\<lambda>p. proj_key p = g \<and> year p = y) (rows df))
                       [y \<leftarrow> seq_years. 2020 \<le> y \<and> y \<le> 2100])
              (groups df)"

definition example_row :: "int \<Rightarrow> proj_row" where
  "example_row y =
     \<lparr>proj_row.scenario_version = ''updated'', scenario = ''SSP2'',
      message_technology = ''coal_ppl'', region = ''R12_NAM'', year = y,
      inv_cost = 1000 - 2 * real_of_int (y - 2020),
      fix_cost = 100 - real_of_int (y - 2020)\<rparr>"

definition example_proj :: "proj_row frame" where
  "example_proj =
     \<lparr>columns = [''scenario_version'', ''scenario'', ''message_technology'', ''region'',
                 ''year'', ''inv_cost'', ''fix_cost''],
      rows = map example_row [y \<leftarrow> seq_years. 2020 \<le> y \<and> y \<le> 2100]\<rparr>"

text \<open>The sample projection with one more record, at 2015, before the anchor year.\<close>

definition early_proj :: "proj_row frame" where
  "early_proj = example_proj\<lparr>rows := example_row 2015 # rows example_proj\<rparr>"

subsection \<open>Stages modelled from the spec\<close>

text \<open>
  Modelled from the spec: the learning-rate projector
  \<^verbatim>\<open>project_ref_region_inv_costs_using_learning_rates\<close> of the module \<^verbatim>\<open>learning\<close>,
  which the sources do not contain. The spec (4.2 and glossary): it "applies a
  per-technology learning (cost-reduction) rate to extrapolate the reference region's
  investment cost across the full model time horizon", the rate being a "fractional
  annual cost reduction". The cost \<open>n\<close> years after the base year is the reference cost
  reduced \<open>n\<close> times by the fraction; a technology without a reference cost or without
  a rate, and a year outside the horizon, have no projected cost.
\<close>

fun learning_cost :: "real \<Rightarrow> real \<Rightarrow> nat \<Rightarrow> real" where
  "learning_cost ref_cost cost_reduction 0 = ref_cost"
| "learning_cost ref_cost cost_reduction (Suc n) =
     learning_cost ref_cost cost_reduction n * (1 - cost_reduction)"

text \<open>
  Modelled from the spec: the output of the learning-rate projector, the "reference-region
  investment-cost trajectory by technology and year" (4.2), as the cost of a technology
  in a year of the horizon, from the reference costs and the rates by technology.
\<close>

definition learning_projection ::
  "(string \<rightharpoonup> real) \<Rightarrow> (string \<rightharpoonup> real) \<Rightarrow> int \<Rightarrow> int \<Rightarrow> string \<Rightarrow> int \<Rightarrow> real option" where
  "learning_projection ref_costs cost_reductions base_year last_year t y =
     (case ref_costs t of
        None \<Rightarrow> None
      | Some c \<Rightarrow>
          (case cost_reductions t of
             None \<Rightarrow> None
           | Some r \<Rightarrow>
               if base_year \<le> y \<and> y \<le> last_year
               then Some (learning_cost c r (nat (y - base_year)))
               else None))"

text \<open>
  Modelled from the spec: the scenario selector of \<^verbatim>\<open>project_all_inv_costs\<close> and the
  final formatter \<^verbatim>\<open>get_final_inv_and_fom_costs\<close> of the module \<^verbatim>\<open>splines\<close>, which the
  sources do not contain. The spec (4.4, 4.5 and 6): the blender produces a trajectory
  "for every combination" of region, technology, scenario version and scenario; the
  scenario argument is "a string, or \<^verbatim>\<open>"all"\<close> to retain every scenario"; the formatter
  surfaces, record by record, the trajectory that the method selects. The blending
  itself (\<open>blend\<close>) and the surfacing of one record (\<open>surface\<close>) are parameters.
\<close>

definition select_scenario :: "('d \<Rightarrow> string) \<Rightarrow> string \<Rightarrow> 'd list \<Rightarrow> 'd list" where
  "select_scenario scenario_of input_scenario records =
     (if input_scenario = ''all'' then records
      else [r \<leftarrow> records. scenario_of r = input_scenario])"

text \<open>
  Modelled from the spec: the five stages with the selector and the formatter above;
  the differentiator, the projector and the adjuster stay parameters.
\<close>

definition spec_stages ::
  "(string \<Rightarrow> string \<Rightarrow> int \<Rightarrow> error + 'a) \<Rightarrow> ('a \<Rightarrow> string \<Rightarrow> string \<Rightarrow> int \<Rightarrow> error + 'b)
     \<Rightarrow> ('a \<Rightarrow> string \<Rightarrow> string \<Rightarrow> int \<Rightarrow> error + 'c)
     \<Rightarrow> ('a \<Rightarrow> 'b \<Rightarrow> 'c \<Rightarrow> int \<Rightarrow> string \<Rightarrow> error + 'd list) \<Rightarrow> ('d \<Rightarrow> string)
     \<Rightarrow> (string \<Rightarrow> 'd \<Rightarrow> 'e) \<Rightarrow> ('a, 'b, 'c, 'd list, 'e list) stages" where
  "spec_stages weo learning gdp blend scenario_of surface =
     \<lparr>get_weo_region_differentiated_costs = weo,
      project_ref_region_inv_costs_using_learning_rates = learning,
      calculate_gdp_adjusted_region_cost_ratios = gdp,
      project_all_inv_costs = (\<lambda>df_region_diff df_ref_reg_learning df_adj_cost_ratios
          input_convergence_year input_scenario_version input_scenario.
        case blend df_region_diff df_ref_reg_learning df_adj_cost_ratios
               input_convergence_year input_scenario_version of
          Inl e \<Rightarrow> Inl e
        | Inr records \<Rightarrow> Inr (select_scenario scenario_of input_scenario records)),
      get_final_inv_and_fom_costs = (\<lambda>df_all_inv input_method.
        Inr (map (surface input_method) df_all_inv))\<rparr>"

text \<open>Sample stages: the blender yields one record for each of two scenarios.\<close>

definition sample_spec_stages ::
  "(unit, unit, unit, (string \<times> int) list, (string \<times> int) list) stages" where
  "sample_spec_stages =
     spec_stages (\<lambda>n r b. Inr ()) (\<lambda>df n r b. Inr ()) (\<lambda>df n r b. Inr ())
       (\<lambda>df l g c v. Inr [(''SSP1'', 1), (''SSP2'', 2)]) fst (\<lambda>m r. r)"

section \<open>Properties of the entry point\<close>

lemma str_upper_examples:
  "str_upper ''R99'' = ''R99''" "str_upper ''r99'' = ''R99''"
  "str_upper ''r12'' = ''R12''" "str_upper ''r12_chn'' = ''R12_CHN''"
  by (simp_all add: str_upper_def char_upper_def)

lemma run_stages_never_message:
  "run_stages st n r b v s m c \<noteq> Inr (Message msg)"
  by (simp add: run_stages_def split: sum.splits)

text \<open>
  The error string is returned for the invalid nodes and only for them: a valid node
  yields a dataframe or an exception of a stage.
\<close>

lemma get_cost_projections_message_iff:
  "get_cost_projections st sel_node r b v s m c f = Inr (Message msg)
     \<longleftrightarrow> str_upper sel_node \<notin> set valid_nodes \<and> msg = invalid_node_message"
  by (auto simp: get_cost_projections_def Let_def run_stages_never_message
      split: option.splits)

text \<open>
  Claim C1. For every \<^verbatim>\<open>sel_node\<close> whose upper-cased form is not one of R11, R12, R20,
  \<^verbatim>\<open>get_cost_projections\<close> returns the error string, whatever the other arguments and
  the stages are: it returns (\<^term>\<open>Inr\<close>), so nothing is raised, and the value is a
  string, not a dataframe. The test looks at the upper-cased form only, so every
  spelling \<^verbatim>\<open>t\<close> with the same upper-cased form is rejected with it.
\<close>

theorem get_cost_projections_invalid_node:
  assumes "str_upper sel_node \<notin> {''R11'', ''R12'', ''R20''}"
  shows "get_cost_projections st sel_node r b v s m c f = Inr (Message invalid_node_message)
       \<and> (\<forall>t. str_upper t = str_upper sel_node \<longrightarrow>
             get_cost_projections st t r b v s m c f = Inr (Message invalid_node_message))"
  using assms by (simp add: get_cost_projections_def valid_nodes_def)

theorem get_cost_projections_invalid_node_witness:
  "str_upper ''R99'' \<notin> {''R11'', ''R12'', ''R20''}
   \<and> get_cost_projections echo_stages ''R99'' None 2021 ''updated'' ''all'' ''convergence''
        2050 ''message'' = Inr (Message invalid_node_message)
   \<and> get_cost_projections echo_stages ''r99'' None 2021 ''updated'' ''all'' ''convergence''
        2050 ''message'' = Inr (Message invalid_node_message)"
proof -
  have h: "str_upper ''R99'' \<notin> {''R11'', ''R12'', ''R20''}"
    by (simp add: str_upper_examples)
  from get_cost_projections_invalid_node [OF h, of echo_stages None 2021 "''updated''"
      "''all''" "''convergence''" 2050 "''message''"]
  show ?thesis using h by (simp add: str_upper_examples)
qed

section \<open>Properties of the record builder\<close>

subsection \<open>Loops, unique values and concatenation\<close>

lemma for_each_Inr_iff:
  "for_each f xs = Inr ys \<longleftrightarrow> list_all2 (\<lambda>x y. f x = Inr y) xs ys"
proof (induction xs arbitrary: ys)
  case Nil
  show ?case by auto
next
  case (Cons x xs)
  show ?case
    by (auto simp: list_all2_Cons1 Cons.IH [symmetric] split: sum.splits)
qed

lemma for_each_Inl:
  "for_each f xs = Inl e \<Longrightarrow> \<exists>x\<in>set xs. f x = Inl e"
  by (induction xs) (auto split: sum.splits)

lemma for_each_total:
  "\<forall>x\<in>set xs. \<exists>y. f x = Inr y \<Longrightarrow> \<exists>ys. for_each f xs = Inr ys"
  by (induction xs) (auto split: sum.splits)

lemma list_all2_right_member:
  "list_all2 P xs ys \<Longrightarrow> y \<in> set ys \<Longrightarrow> \<exists>x\<in>set xs. P x y"
  by (induction rule: list_all2_induct) auto

lemma list_all2_left_member:
  "list_all2 P xs ys \<Longrightarrow> x \<in> set xs \<Longrightarrow> \<exists>y\<in>set ys. P x y"
  by (induction rule: list_all2_induct) auto

lemma set_unique [simp]: "set (unique xs) = set xs"
  by (simp add: unique_def)

lemma remdups_append_absorb:
  "set xs \<subseteq> set zs \<Longrightarrow> remdups (xs @ zs) = remdups zs"
  by (induction xs) auto

lemma unique_append_absorb:
  "distinct c \<Longrightarrow> set ys \<subseteq> set c \<Longrightarrow> unique (c @ ys) = c"
  by (simp add: unique_def remdups_append_absorb distinct_remdups_id)

lemma unique_same_columns:
  assumes "fs \<noteq> []" and "\<And>f. f \<in> set fs \<Longrightarrow> g f = c" and "distinct c"
  shows "unique (concat (map g fs)) = c"
proof -
  obtain f rest where fs: "fs = f # rest" using assms(1) by (cases fs) auto
  have "set (concat (map g rest)) \<subseteq> set c"
    using assms(2) fs by auto
  with assms show ?thesis
    by (simp add: fs unique_append_absorb)
qed

lemma pd_concat_Inr:
  "pd_concat fs = Inr F \<longleftrightarrow>
     fs \<noteq> [] \<and> F = \<lparr>columns = unique (concat (map columns fs)), rows = concat (map rows fs)\<rparr>"
  by (auto simp: pd_concat_def)

lemma pd_concat_Inl: "pd_concat fs = Inl e \<longleftrightarrow> fs = [] \<and> e = ValueError"
  by (auto simp: pd_concat_def)

lemma seq_years_list:
  "seq_years = [1960, 1965, 1970, 1975, 1980, 1985, 1990, 1995, 2000, 2005, 2010, 2015,
     2020, 2025, 2030, 2035, 2040, 2045, 2050, 2055, 2060, 2065, 2070, 2075, 2080, 2085,
     2090, 2095, 2100, 2105, 2110]"
  by code_simp

lemma seq_years_iff:
  "y \<in> set seq_years \<longleftrightarrow> 1960 \<le> y \<and> y \<le> 2110 \<and> y mod 5 = 0"
proof -
  have "set seq_years = (\<lambda>n. 1960 + int n * 5) ` {0..<31}"
    by (simp add: seq_years_def range_step_def HORIZON_START_def HORIZON_END_def)
  moreover have "y \<in> (\<lambda>n. 1960 + int n * 5) ` {0..<31} \<longleftrightarrow> 1960 \<le> y \<and> y \<le> 2110 \<and> y mod 5 = 0"
  proof
    assume "y \<in> (\<lambda>n. 1960 + int n * 5) ` {0..<31}"
    then show "1960 \<le> y \<and> y \<le> 2110 \<and> y mod 5 = 0" by auto
  next
    assume a: "1960 \<le> y \<and> y \<le> 2110 \<and> y mod 5 = 0"
    then have "y = 1960 + ((y - 1960) div 5) * 5" by presburger
    moreover have "0 \<le> (y - 1960) div 5" using a by (simp add: pos_imp_zdiv_nonneg_iff)
    ultimately have "y = 1960 + int (nat ((y - 1960) div 5)) * 5" by simp
    moreover have "nat ((y - 1960) div 5) \<in> {0..<31}" using a by auto
    ultimately show "y \<in> (\<lambda>n. 1960 + int n * 5) ` {0..<31}" by blast
  qed
  ultimately show ?thesis by simp
qed

subsection \<open>The rows of \<^verbatim>\<open>costs_tot\<close> and the initial value of a vintage\<close>

lemma rows_tech:
  "set (rows (tech df h i j k)) = {p \<in> set (rows df). proj_key p = (h, i, j, k)}"
  by (auto simp: tech_def query_def proj_key_def)

lemma proj_key_year [simp]: "proj_key (p\<lparr>year := y\<rparr>) = proj_key p"
  by (simp add: proj_key_def)

lemma inv_key_record [simp]: "inv_key (inv_record p) = proj_key p"
  by (simp add: inv_key_def inv_record_def proj_key_def)

lemma fix_key_record [simp]: "fix_key (fix_record y iv p) = proj_key p"
  by (simp add: fix_key_def fix_record_def proj_key_def)

lemma costs_tot_Inr:
  "costs_tot B L tec = Inr ct \<longleftrightarrow>
     hist_years B \<noteq> [] \<and> fut_years L \<noteq> [] \<and>
     ct = \<lparr>columns = unique (unique (concat (map (\<lambda>y. columns tec) (hist_years B))) @ columns tec
                          @ unique (concat (map (\<lambda>y. columns tec) (fut_years L)))),
           rows = concat (map (\<lambda>y. map (\<lambda>r. r\<lparr>year := y\<rparr>) [r \<leftarrow> rows tec. year r = 2020])
                              (hist_years B))
                  @ rows tec
                  @ concat (map (\<lambda>y. map (\<lambda>r. r\<lparr>year := y\<rparr>) [r \<leftarrow> rows tec. year r = 2100])
                              (fut_years L))\<rparr>"
  by (auto simp: costs_tot_def Let_def pd_concat_def assign_year_def query_def o_def
      split: sum.splits)

lemma costs_tot_Inl:
  "costs_tot B L tec = Inl e \<longleftrightarrow> (hist_years B = [] \<or> fut_years L = []) \<and> e = ValueError"
  by (auto simp: costs_tot_def Let_def pd_concat_def split: sum.splits)

lemma in_costs_tot:
  assumes "costs_tot B L tec = Inr ct"
  shows "p \<in> set (rows ct) \<longleftrightarrow>
           p \<in> set (rows tec)
         \<or> (\<exists>q\<in>set (rows tec). \<exists>y\<in>set (hist_years B). year q = 2020 \<and> p = q\<lparr>year := y\<rparr>)
         \<or> (\<exists>q\<in>set (rows tec). \<exists>y\<in>set (fut_years L). year q = 2100 \<and> p = q\<lparr>year := y\<rparr>)"
  using assms unfolding costs_tot_Inr by auto

lemma first_value_Inr:
  "first_value vs = Inr v \<longleftrightarrow> vs \<noteq> [] \<and> v = hd vs"
  by (auto simp: first_value_def split: list.splits)

lemma init_val_Inr:
  assumes "init_val (query (\<lambda>r. y \<le> year r) ct) y = Inr iv"
  shows "\<exists>q\<in>set (rows ct). year q = max y 2020 \<and> iv = fix_cost q"
proof -
  let ?m = "max y 2020"
  let ?sel = "[r \<leftarrow> rows ct. y \<le> year r \<and> year r = ?m]"
  from assms have "first_value (map fix_cost ?sel) = Inr iv"
    by (auto simp: init_val_def query_def max_def conj_commute split: if_splits)
  then have ne: "?sel \<noteq> []" and iv: "iv = fix_cost (hd ?sel)"
    by (auto simp: first_value_Inr hd_map)
  from ne have "hd ?sel \<in> set ?sel" by (rule hd_in_set)
  with iv show ?thesis by auto
qed

lemma init_val_total:
  assumes "q \<in> set (rows ct)" "year q = max y 2020"
  shows "\<exists>iv. init_val (query (\<lambda>r. y \<le> year r) ct) y = Inr iv"
proof -
  have "y \<le> year q" using assms(2) by simp
  with assms have "[r \<leftarrow> rows ct. y \<le> year r \<and> year r = max y 2020] \<noteq> []"
    unfolding filter_empty_conv by blast
  then show ?thesis
    by (auto simp: init_val_def query_def first_value_def max_def conj_commute
        split: list.splits if_splits)
qed

lemma fom_updated_Inr:
  "fom_updated ct y = Inr F \<longleftrightarrow>
     (\<exists>iv. init_val (query (\<lambda>r. y \<le> year r) ct) y = Inr iv \<and>
           F = \<lparr>columns = fix_columns,
                rows = map (fix_record y iv) [r \<leftarrow> rows ct. y \<le> year r]\<rparr>)"
  by (auto simp: fom_updated_def Let_def query_def split: sum.splits)

lemma fom_updated_Inl:
  "fom_updated ct y = Inl e \<Longrightarrow> e = IndexError"
  by (auto simp: fom_updated_def Let_def init_val_def first_value_def
      split: sum.splits if_splits list.splits)

subsection \<open>The rows of the two results\<close>

lemma seq_years_not_Nil: "seq_years \<noteq> []"
  by (simp add: seq_years_list)

lemma tech_results_Inr:
  "tech_results B L df (h, i, j, k) = Inr (ti, tf) \<longleftrightarrow>
     (\<exists>ct lf. costs_tot B L (tech df h i j k) = Inr ct \<and>
        list_all2 (\<lambda>y F. fom_updated ct y = Inr F) seq_years lf \<and>
        ti = tech_inv ct \<and>
        tf = \<lparr>columns = unique (concat (map columns lf)), rows = concat (map rows lf)\<rparr>)"
proof -
  have ne: "lf \<noteq> []" if "for_each (fom_updated ct) seq_years = Inr lf" for ct lf
    using that seq_years_not_Nil by (auto simp: for_each_Inr_iff dest: list_all2_lengthD)
  show ?thesis
    unfolding for_each_Inr_iff [symmetric]
    by (auto simp: tech_results_def pd_concat_def dest: ne split: sum.splits)
qed

lemma in_tech_fom:
  assumes "list_all2 (\<lambda>y F. fom_updated ct y = Inr F) seq_years lf"
  shows "r \<in> set (concat (map rows lf)) \<longleftrightarrow>
     (\<exists>y\<in>set seq_years. \<exists>iv p. init_val (query (\<lambda>r. y \<le> year r) ct) y = Inr iv \<and>
        p \<in> set (rows ct) \<and> y \<le> year p \<and> r = fix_record y iv p)"
    (is "?lhs \<longleftrightarrow> ?rhs")
proof
  assume ?lhs
  then obtain F where F: "F \<in> set lf" and r: "r \<in> set (rows F)" by auto
  from list_all2_right_member [OF assms F]
  obtain y where y: "y \<in> set seq_years" and fu: "fom_updated ct y = Inr F" by auto
  from fu obtain iv where iv: "init_val (query (\<lambda>r. y \<le> year r) ct) y = Inr iv"
    and F': "rows F = map (fix_record y iv) [r \<leftarrow> rows ct. y \<le> year r]"
    unfolding fom_updated_Inr by auto
  from r F' obtain p where "p \<in> set (rows ct)" "y \<le> year p" "r = fix_record y iv p"
    by auto
  with y iv show ?rhs by blast
next
  assume ?rhs
  then obtain y iv p where y: "y \<in> set seq_years"
    and iv: "init_val (query (\<lambda>r. y \<le> year r) ct) y = Inr iv"
    and p: "p \<in> set (rows ct)" "y \<le> year p" and r: "r = fix_record y iv p" by auto
  from list_all2_left_member [OF assms y]
  obtain F where F: "F \<in> set lf" and fu: "fom_updated ct y = Inr F" by auto
  from fu iv have "rows F = map (fix_record y iv) [r \<leftarrow> rows ct. y \<le> year r]"
    unfolding fom_updated_Inr by auto
  with p r have "r \<in> set (rows F)" by auto
  with F show ?lhs by auto
qed

lemma create_message_inputs_Inr:
  "create_message_inputs B L df = Inr (msg_inv, msg_fom) \<longleftrightarrow>
     (\<exists>l. list_all2 (\<lambda>g res. tech_results B L df g = Inr res) (groups df) l \<and> l \<noteq> [] \<and>
        msg_inv = \<lparr>columns = unique (concat (map columns (map fst l))),
                   rows = concat (map rows (map fst l))\<rparr> \<and>
        msg_fom = \<lparr>columns = unique (concat (map columns (map snd l))),
                   rows = concat (map rows (map snd l))\<rparr>)"
  unfolding for_each_Inr_iff [symmetric]
  by (auto simp: create_message_inputs_def pd_concat_def split: sum.splits)

lemma in_msg_inv:
  assumes "create_message_inputs B L df = Inr (msg_inv, msg_fom)"
  shows "r \<in> set (rows msg_inv) \<longleftrightarrow>
     (\<exists>h i j k ct. (h, i, j, k) \<in> set (groups df) \<and>
        costs_tot B L (tech df h i j k) = Inr ct \<and> r \<in> inv_record ` set (rows ct))"
    (is "?lhs \<longleftrightarrow> ?rhs")
proof -
  from assms obtain l where
    l: "list_all2 (\<lambda>g res. tech_results B L df g = Inr res) (groups df) l"
    and inv: "rows msg_inv = concat (map rows (map fst l))"
    unfolding create_message_inputs_Inr by auto
  show ?thesis
  proof
    assume ?lhs
    with inv obtain res where res: "res \<in> set l" and r: "r \<in> set (rows (fst res))" by auto
    from list_all2_right_member [OF l res]
    obtain g where g: "g \<in> set (groups df)" and tr: "tech_results B L df g = Inr res" by auto
    obtain h i j k where gk: "g = (h, i, j, k)" by (cases g) auto
    obtain ti tf where rs: "res = (ti, tf)" by (cases res) auto
    from tr [unfolded gk rs tech_results_Inr] obtain ct where
      ct: "costs_tot B L (tech df h i j k) = Inr ct" and ti: "ti = tech_inv ct" by auto
    from r rs ti have "r \<in> inv_record ` set (rows ct)" by (simp add: tech_inv_def)
    with ct g gk show ?rhs by blast
  next
    assume ?rhs
    then obtain h i j k ct where g: "(h, i, j, k) \<in> set (groups df)"
      and ct: "costs_tot B L (tech df h i j k) = Inr ct"
      and r: "r \<in> inv_record ` set (rows ct)" by auto
    from list_all2_left_member [OF l g]
    obtain res where res: "res \<in> set l" and tr: "tech_results B L df (h, i, j, k) = Inr res"
      by auto
    obtain ti tf where rs: "res = (ti, tf)" by (cases res) auto
    from tr [unfolded rs tech_results_Inr] ct have "ti = tech_inv ct" by auto
    with r have "r \<in> set (rows (fst res))" by (simp add: rs tech_inv_def)
    with res inv show ?lhs by auto
  qed
qed

lemma in_msg_fom:
  assumes "create_message_inputs B L df = Inr (msg_inv, msg_fom)"
  shows "r \<in> set (rows msg_fom) \<longleftrightarrow>
     (\<exists>h i j k ct y iv p. (h, i, j, k) \<in> set (groups df) \<and>
        costs_tot B L (tech df h i j k) = Inr ct \<and> y \<in> set seq_years \<and>
        init_val (query (\<lambda>r. y \<le> year r) ct) y = Inr iv \<and>
        p \<in> set (rows ct) \<and> y \<le> year p \<and> r = fix_record y iv p)"
    (is "?lhs \<longleftrightarrow> ?rhs")
proof -
  from assms obtain l where
    l: "list_all2 (\<lambda>g res. tech_results B L df g = Inr res) (groups df) l"
    and fom: "rows msg_fom = concat (map rows (map snd l))"
    unfolding create_message_inputs_Inr by auto
  show ?thesis
  proof
    assume ?lhs
    with fom obtain res where res: "res \<in> set l" and r: "r \<in> set (rows (snd res))" by auto
    from list_all2_right_member [OF l res]
    obtain g where g: "g \<in> set (groups df)" and tr: "tech_results B L df g = Inr res" by auto
    obtain h i j k where gk: "g = (h, i, j, k)" by (cases g) auto
    obtain ti tf where rs: "res = (ti, tf)" by (cases res) auto
    from tr [unfolded gk rs tech_results_Inr] obtain ct lf where
      ct: "costs_tot B L (tech df h i j k) = Inr ct"
      and lf: "list_all2 (\<lambda>y F. fom_updated ct y = Inr F) seq_years lf"
      and tf: "rows tf = concat (map rows lf)" by auto
    from r rs tf have "r \<in> set (concat (map rows lf))" by simp
    with in_tech_fom [OF lf] ct g gk show ?rhs by blast
  next
    assume ?rhs
    then obtain h i j k ct y iv p where g: "(h, i, j, k) \<in> set (groups df)"
      and ct: "costs_tot B L (tech df h i j k) = Inr ct"
      and rest: "y \<in> set seq_years" "init_val (query (\<lambda>r. y \<le> year r) ct) y = Inr iv"
        "p \<in> set (rows ct)" "y \<le> year p" "r = fix_record y iv p" by auto
    from list_all2_left_member [OF l g]
    obtain res where res: "res \<in> set l" and tr: "tech_results B L df (h, i, j, k) = Inr res"
      by auto
    obtain ti tf where rs: "res = (ti, tf)" by (cases res) auto
    from tr [unfolded rs tech_results_Inr] ct obtain lf where
      lf: "list_all2 (\<lambda>y F. fom_updated ct y = Inr F) seq_years lf"
      and tf: "rows tf = concat (map rows lf)" by auto
    from in_tech_fom [OF lf] rest have "r \<in> set (concat (map rows lf))" by blast
    with tf rs have "r \<in> set (rows (snd res))" by simp
    with res fom show ?lhs by auto
  qed
qed

subsection \<open>When the builder returns\<close>

lemma map_of_decay_frame:
  "map_of (decay_frame y iv) a =
     (if y \<le> a \<and> a \<le> 2110 then Some (iv * (1 - 0.0025) ^ nat (a - y)) else None)"
  by (auto simp: decay_frame_def range_py_def map_of_map_restrict restrict_map_def)

lemma hist_years_iff: "y \<in> set (hist_years B) \<longleftrightarrow> y \<in> set seq_years \<and> y < B - 5"
  by (auto simp: hist_years_def smaller_than_def)

lemma fut_years_iff: "y \<in> set (fut_years L) \<longleftrightarrow> y \<in> set seq_years \<and> L < y"
  by (auto simp: fut_years_def larger_than_def)

lemma hist_years_not_Nil: "1965 < B \<Longrightarrow> hist_years B \<noteq> []"
proof -
  assume "1965 < B"
  then have "1960 \<in> set (hist_years B)" by (simp add: hist_years_iff seq_years_iff)
  then show ?thesis by auto
qed

lemma fut_years_not_Nil: "L < 2110 \<Longrightarrow> fut_years L \<noteq> []"
proof -
  assume "L < 2110"
  then have "2110 \<in> set (fut_years L)" by (simp add: fut_years_iff seq_years_iff)
  then show ?thesis by auto
qed

lemma costs_tot_origin:
  assumes "costs_tot B L (tech df h i j k) = Inr ct" and "p \<in> set (rows ct)"
  shows "proj_key p = (h, i, j, k)"
    and "\<exists>q\<in>set (rows df). proj_key q = proj_key p \<and> inv_cost q = inv_cost p \<and>
           fix_cost q = fix_cost p"
  using assms by (auto simp: in_costs_tot rows_tech)

lemma in_groups:
  "(h, i, j, k) \<in> set (groups df) \<longleftrightarrow>
     h \<in> proj_row.scenario_version ` set (rows df) \<and> i \<in> proj_row.scenario ` set (rows df) \<and>
     j \<in> message_technology ` set (rows df) \<and> k \<in> region ` set (rows df)"
  by (auto simp: groups_def Let_def) blast

lemma proj_key_in_groups: "p \<in> set (rows df) \<Longrightarrow> proj_key p \<in> set (groups df)"
  by (simp add: proj_key_def in_groups)

lemma groups_not_Nil: "rows df \<noteq> [] \<Longrightarrow> groups df \<noteq> []"
proof -
  assume "rows df \<noteq> []"
  then obtain p where p: "p \<in> set (rows df)" by (cases "rows df") auto
  then have "proj_key p \<in> set (groups df)" by (rule proj_key_in_groups)
  then show ?thesis by auto
qed

lemma create_message_inputs_returns:
  assumes comp: "complete_projection df" and B: "1965 < B" and L: "L < 2105"
  shows "\<exists>msg_inv msg_fom. create_message_inputs B L df = Inr (msg_inv, msg_fom)"
proof -
  have ne: "groups df \<noteq> []" using comp by (simp add: complete_projection_def groups_not_Nil)
  have each: "\<exists>res. tech_results B L df g = Inr res" if g: "g \<in> set (groups df)" for g
  proof -
    obtain h i j k where gk: "g = (h, i, j, k)" by (cases g) auto
    have "hist_years B \<noteq> []" "fut_years L \<noteq> []"
      using B L by (simp_all add: hist_years_not_Nil fut_years_not_Nil)
    then obtain ct where ct: "costs_tot B L (tech df h i j k) = Inr ct"
      by (auto simp: costs_tot_Inr)
    have have_year: "\<exists>p\<in>set (rows (tech df h i j k)). year p = y"
      if "y \<in> set seq_years" "2020 \<le> y" "y \<le> 2100" for y
      using comp g that unfolding complete_projection_def gk
      by (auto simp: list_all_iff list_ex_iff rows_tech)
    have "\<exists>F. fom_updated ct y = Inr F" if y: "y \<in> set seq_years" for y
    proof -
      have "\<exists>q\<in>set (rows ct). year q = max y 2020"
      proof (cases "y \<le> 2100")
        case True
        have "max y 2020 \<in> set seq_years" using y by (auto simp: seq_years_iff max_def)
        with have_year [of "max y 2020"] True
        obtain p where "p \<in> set (rows (tech df h i j k))" "year p = max y 2020" by auto
        then show ?thesis using in_costs_tot [OF ct] by blast
      next
        case False
        with y have "2105 \<le> y" unfolding seq_years_iff by presburger
        with y L have fy: "y \<in> set (fut_years L)" by (simp add: fut_years_iff)
        have "(2100::int) \<in> set seq_years" by (simp add: seq_years_iff)
        with have_year [of 2100]
        obtain p where p: "p \<in> set (rows (tech df h i j k))" "year p = 2100" by auto
        have "p\<lparr>year := y\<rparr> \<in> set (rows ct)"
          using p fy in_costs_tot [OF ct] by blast
        moreover have "year (p\<lparr>year := y\<rparr>) = max y 2020" using False by simp
        ultimately show ?thesis by blast
      qed
      then obtain q where "q \<in> set (rows ct)" "year q = max y 2020" by auto
      from init_val_total [OF this] show ?thesis by (auto simp: fom_updated_Inr)
    qed
    then have "\<exists>lf. for_each (fom_updated ct) seq_years = Inr lf"
      by (intro for_each_total) auto
    then obtain lf where "list_all2 (\<lambda>y F. fom_updated ct y = Inr F) seq_years lf"
      by (auto simp: for_each_Inr_iff)
    with ct have "tech_results B L df (h, i, j, k) =
        Inr (tech_inv ct,
             \<lparr>columns = unique (concat (map columns lf)), rows = concat (map rows lf)\<rparr>)"
      unfolding tech_results_Inr by blast
    then show ?thesis by (auto simp: gk)
  qed
  then have "\<exists>l. for_each (tech_results B L df) (groups df) = Inr l"
    by (intro for_each_total) auto
  then obtain l where l: "list_all2 (\<lambda>g res. tech_results B L df g = Inr res) (groups df) l"
    by (auto simp: for_each_Inr_iff)
  with ne have "l \<noteq> []" by (auto dest: list_all2_lengthD)
  with l show ?thesis
    using create_message_inputs_Inr [of B L df] by blast
qed

subsection \<open>Vintage and activity years, signs, and the years before the base year\<close>

lemma fix_record_sel [simp]:
  "year_vtg (fix_record y iv p) = y"
  "year_act (fix_record y iv p) = year p"
  "fix_row.unit (fix_record y iv p) = ''USD/kWa''"
  "fix_row.value (fix_record y iv p) =
     (if year p \<le> 2020 then Some (fix_cost p) else map_of (decay_frame y iv) (year p))"
  by (simp_all add: fix_record_def)

lemma inv_record_sel [simp]:
  "inv_row.year_vtg (inv_record p) = year p"
  "inv_row.value (inv_record p) = inv_cost p"
  "inv_row.unit (inv_record p) = ''USD/kWa''"
  by (simp_all add: inv_record_def)

text \<open>
  Claim C10. Whenever \<^verbatim>\<open>create_message_inputs\<close> returns, every row of the fixed-cost
  frame has an activity year that is at least its vintage year, and the vintage year is
  one of the years 1960, 1965, ..., 2110: the loop over the vintage years keeps the rows
  of \<^verbatim>\<open>costs_tot\<close> whose year is at least the vintage.
\<close>

theorem fom_year_act_ge_year_vtg:
  assumes "create_message_inputs B L df = Inr (msg_inv, msg_fom)"
    and "r \<in> set (rows msg_fom)"
  shows "year_vtg r \<le> year_act r \<and> year_vtg r \<in> set seq_years"
  using assms(2) unfolding in_msg_fom [OF assms(1)] by auto

text \<open>
  Claim C7. If no investment cost and no fixed cost of the input projection is negative,
  then, whenever \<^verbatim>\<open>create_message_inputs\<close> returns, no investment-cost value is
  negative, and every fixed-cost row whose activity year is within the horizon (up to
  2110) has a value, which is not negative.
\<close>

theorem costs_nonnegative:
  assumes ret: "create_message_inputs B L df = Inr (msg_inv, msg_fom)"
    and nonneg: "\<forall>p\<in>set (rows df). 0 \<le> inv_cost p \<and> 0 \<le> fix_cost p"
  shows "(\<forall>r\<in>set (rows msg_inv). 0 \<le> inv_row.value r) \<and>
         (\<forall>r\<in>set (rows msg_fom). year_act r \<le> HORIZON_END \<longrightarrow>
            (\<exists>v. fix_row.value r = Some v \<and> 0 \<le> v))"
proof (intro conjI ballI impI)
  fix r assume "r \<in> set (rows msg_inv)"
  then obtain h i j k ct p where ct: "costs_tot B L (tech df h i j k) = Inr ct"
    and p: "p \<in> set (rows ct)" and r: "r = inv_record p"
    unfolding in_msg_inv [OF ret] by auto
  from costs_tot_origin(2) [OF ct p] nonneg have "0 \<le> inv_cost p" by force
  with r show "0 \<le> inv_row.value r" by simp
next
  fix r assume "r \<in> set (rows msg_fom)" and hor: "year_act r \<le> HORIZON_END"
  then obtain h i j k ct y iv p where ct: "costs_tot B L (tech df h i j k) = Inr ct"
    and iv: "init_val (query (\<lambda>r. y \<le> year r) ct) y = Inr iv"
    and p: "p \<in> set (rows ct)" "y \<le> year p" and r: "r = fix_record y iv p"
    unfolding in_msg_fom [OF ret] by auto
  from init_val_Inr [OF iv] obtain q where q: "q \<in> set (rows ct)" "iv = fix_cost q" by auto
  from costs_tot_origin(2) [OF ct q(1)] nonneg q(2) have iv0: "0 \<le> iv" by force
  from costs_tot_origin(2) [OF ct p(1)] nonneg have p0: "0 \<le> fix_cost p" by force
  from hor r have "year p \<le> 2110" by (simp add: HORIZON_END_def)
  with p(2) iv0 p0 r show "\<exists>v. fix_row.value r = Some v \<and> 0 \<le> v"
    by (simp add: map_of_decay_frame)
qed

text \<open>
  Claim C4, as the code has it. Let the base year be no later than the last model year.
  Every investment-cost record whose year is before the base year either is a record of
  the input projection, passed through with its own year and value, or carries the value
  of a record of the same version, scenario, technology and region at the year 2020.
  So, for a projection that holds no record before the base year other than at the
  anchor year 2020, every such record carries the value of a record at 2020.
\<close>

theorem inv_cost_before_base_year:
  assumes ret: "create_message_inputs B L df = Inr (msg_inv, msg_fom)"
    and BL: "B \<le> L"
    and r: "r \<in> set (rows msg_inv)" and before: "inv_row.year_vtg r < B"
  shows "((\<exists>p\<in>set (rows df). proj_key p = inv_key r \<and> year p = inv_row.year_vtg r \<and>
              inv_cost p = inv_row.value r)
          \<or> (\<exists>a\<in>set (rows msg_inv). inv_key a = inv_key r \<and> inv_row.year_vtg a = 2020 \<and>
                inv_row.value a = inv_row.value r))
       \<and> ((\<forall>p\<in>set (rows df). year p < B \<longrightarrow> year p = 2020) \<longrightarrow>
            (\<exists>a\<in>set (rows msg_inv). inv_key a = inv_key r \<and> inv_row.year_vtg a = 2020 \<and>
                inv_row.value a = inv_row.value r))"
proof -
  let ?copy = "\<exists>a\<in>set (rows msg_inv). inv_key a = inv_key r \<and> inv_row.year_vtg a = 2020 \<and>
      inv_row.value a = inv_row.value r"
  let ?input = "\<exists>p\<in>set (rows df). proj_key p = inv_key r \<and> year p = inv_row.year_vtg r \<and>
      inv_cost p = inv_row.value r"
  from r obtain h i j k ct p where g: "(h, i, j, k) \<in> set (groups df)"
    and ct: "costs_tot B L (tech df h i j k) = Inr ct"
    and p: "p \<in> set (rows ct)" and rp: "r = inv_record p"
    unfolding in_msg_inv [OF ret] by auto
  from before rp have yp: "year p < B" by simp
  from p consider
      (own) "p \<in> set (rows (tech df h i j k))"
    | (hist) q y where "q \<in> set (rows (tech df h i j k))" "y \<in> set (hist_years B)"
        "year q = 2020" "p = q\<lparr>year := y\<rparr>"
    | (fut) q y where "q \<in> set (rows (tech df h i j k))" "y \<in> set (fut_years L)"
        "year q = 2100" "p = q\<lparr>year := y\<rparr>"
    unfolding in_costs_tot [OF ct] by blast
  then have cases: "(p \<in> set (rows df) \<and> ?input) \<or> ?copy"
  proof cases
    case own
    then have pd: "p \<in> set (rows df)" by (simp add: rows_tech)
    moreover have "proj_key p = inv_key r \<and> year p = inv_row.year_vtg r \<and>
        inv_cost p = inv_row.value r"
      using rp by simp
    ultimately have ?input by (rule bexI [rotated])
    with pd show ?thesis by (intro disjI1 conjI)
  next
    case hist
    then have "q \<in> set (rows ct)" using in_costs_tot [OF ct] by blast
    with g ct have "inv_record q \<in> set (rows msg_inv)"
      unfolding in_msg_inv [OF ret] by blast
    moreover have "inv_key (inv_record q) = inv_key r \<and>
      inv_row.year_vtg (inv_record q) = 2020 \<and>
      inv_row.value (inv_record q) = inv_row.value r"
      using hist rp by simp
    ultimately have ?copy by (rule bexI [rotated])
    then show ?thesis by (rule disjI2)
  next
    case fut
    then have "L < year p" by (simp add: fut_years_iff)
    with yp BL show ?thesis by simp
  qed
  have first: "?input \<or> ?copy" using cases by (elim disjE conjE) (erule disjI1, erule disjI2)
  have second: ?copy if anchor: "\<forall>p\<in>set (rows df). year p < B \<longrightarrow> year p = 2020"
    using cases
  proof (elim disjE conjE)
    assume pd: "p \<in> set (rows df)"
    from anchor [THEN bspec, OF pd, THEN mp, OF yp] have "year p = 2020" .
    with rp have "inv_key r = inv_key r \<and> inv_row.year_vtg r = 2020 \<and>
        inv_row.value r = inv_row.value r" by simp
    with r show ?copy by (rule bexI [rotated])
  next
    assume ?copy
    then show ?copy .
  qed
  from first second show ?thesis by (intro conjI impI)
qed

subsection \<open>The years after 2100, the decay of the fixed cost, and the columns\<close>

text \<open>
  Claim C5, for the investment-cost frame. Let the last model year be 2100, the base
  year no later, and let the input projection hold no record after 2100. Then every
  investment-cost record after 2100 is at 2105 or 2110 and carries the value of a record
  of the same version, scenario, technology and region at 2100; and every record at 2100
  is repeated, with its value, at 2105 and at 2110. In the fixed-cost frame the value
  keeps decaying after 2100 (see the counterexample further down).
\<close>

theorem inv_cost_after_last_model_year:
  assumes ret: "create_message_inputs B 2100 df = Inr (msg_inv, msg_fom)"
    and B: "B \<le> 2100"
    and horizon: "\<forall>p\<in>set (rows df). year p \<le> 2100"
  shows "(\<forall>r\<in>set (rows msg_inv). 2100 < inv_row.year_vtg r \<longrightarrow>
            (inv_row.year_vtg r = 2105 \<or> inv_row.year_vtg r = 2110) \<and>
            (\<exists>a\<in>set (rows msg_inv). inv_key a = inv_key r \<and> inv_row.year_vtg a = 2100 \<and>
                inv_row.value a = inv_row.value r)) \<and>
         (\<forall>a\<in>set (rows msg_inv). inv_row.year_vtg a = 2100 \<longrightarrow>
            (\<forall>y\<in>{2105, 2110}. \<exists>r\<in>set (rows msg_inv). inv_key r = inv_key a \<and>
                inv_row.year_vtg r = y \<and> inv_row.value r = inv_row.value a))"
proof (intro conjI ballI impI)
  fix r assume r: "r \<in> set (rows msg_inv)" and after: "2100 < inv_row.year_vtg r"
  from r obtain h i j k ct p where g: "(h, i, j, k) \<in> set (groups df)"
    and ct: "costs_tot B 2100 (tech df h i j k) = Inr ct"
    and p: "p \<in> set (rows ct)" and rp: "r = inv_record p"
    unfolding in_msg_inv [OF ret] by auto
  from after rp have yp: "2100 < year p" by simp
  from p consider
      (own) "p \<in> set (rows (tech df h i j k))"
    | (hist) q y where "q \<in> set (rows (tech df h i j k))" "y \<in> set (hist_years B)"
        "year q = 2020" "p = q\<lparr>year := y\<rparr>"
    | (fut) q y where "q \<in> set (rows (tech df h i j k))" "y \<in> set (fut_years 2100)"
        "year q = 2100" "p = q\<lparr>year := y\<rparr>"
    unfolding in_costs_tot [OF ct] by blast
  then have "\<exists>q y. q \<in> set (rows (tech df h i j k)) \<and> y \<in> set (fut_years 2100) \<and>
      year q = 2100 \<and> p = q\<lparr>year := y\<rparr>"
  proof cases
    case own
    then have "p \<in> set (rows df)" by (simp add: rows_tech)
    with horizon yp show ?thesis by force
  next
    case hist
    then have "year p < B - 5" by (simp add: hist_years_iff)
    with yp B show ?thesis by simp
  next
    case fut
    then show ?thesis by blast
  qed
  then obtain q y where q: "q \<in> set (rows (tech df h i j k))" "year q = 2100"
    and y: "y \<in> set (fut_years 2100)" and pq: "p = q\<lparr>year := y\<rparr>" by blast
  from y have "y = 2105 \<or> y = 2110" unfolding fut_years_iff seq_years_iff by presburger
  with rp pq show "inv_row.year_vtg r = 2105 \<or> inv_row.year_vtg r = 2110" by simp
  from q have "q \<in> set (rows ct)" using in_costs_tot [OF ct] by blast
  with g ct have "inv_record q \<in> set (rows msg_inv)"
    unfolding in_msg_inv [OF ret] by blast
  moreover have "inv_key (inv_record q) = inv_key r"
    "inv_row.year_vtg (inv_record q) = 2100"
    "inv_row.value (inv_record q) = inv_row.value r"
    using q pq rp by simp_all
  ultimately show "\<exists>a\<in>set (rows msg_inv). inv_key a = inv_key r \<and>
      inv_row.year_vtg a = 2100 \<and> inv_row.value a = inv_row.value r" by blast
next
  fix a y assume a: "a \<in> set (rows msg_inv)" and at: "inv_row.year_vtg a = 2100"
    and y: "y \<in> {2105, 2110::int}"
  from a obtain h i j k ct p where g: "(h, i, j, k) \<in> set (groups df)"
    and ct: "costs_tot B 2100 (tech df h i j k) = Inr ct"
    and p: "p \<in> set (rows ct)" and ap: "a = inv_record p"
    unfolding in_msg_inv [OF ret] by auto
  from at ap have yp: "year p = 2100" by simp
  from p consider
      (own) "p \<in> set (rows (tech df h i j k))"
    | (hist) q y where "q \<in> set (rows (tech df h i j k))" "y \<in> set (hist_years B)"
        "year q = 2020" "p = q\<lparr>year := y\<rparr>"
    | (fut) q y where "q \<in> set (rows (tech df h i j k))" "y \<in> set (fut_years 2100)"
        "year q = 2100" "p = q\<lparr>year := y\<rparr>"
    unfolding in_costs_tot [OF ct] by blast
  then have own: "p \<in> set (rows (tech df h i j k))"
  proof cases
    case own
    then show ?thesis .
  next
    case hist
    then have "year p < B - 5" by (simp add: hist_years_iff)
    with yp B show ?thesis by simp
  next
    case fut
    then have "2100 < year p" by (simp add: fut_years_iff)
    with yp show ?thesis by simp
  qed
  from y have "y \<in> set (fut_years 2100)" by (auto simp: fut_years_iff seq_years_iff)
  with own yp have "p\<lparr>year := y\<rparr> \<in> set (rows ct)" using in_costs_tot [OF ct] by blast
  with g ct have "inv_record (p\<lparr>year := y\<rparr>) \<in> set (rows msg_inv)"
    unfolding in_msg_inv [OF ret] by blast
  moreover have "inv_key (inv_record (p\<lparr>year := y\<rparr>)) = inv_key a"
    "inv_row.year_vtg (inv_record (p\<lparr>year := y\<rparr>)) = y"
    "inv_row.value (inv_record (p\<lparr>year := y\<rparr>)) = inv_row.value a"
    using ap by simp_all
  ultimately show "\<exists>r\<in>set (rows msg_inv). inv_key r = inv_key a \<and>
      inv_row.year_vtg r = y \<and> inv_row.value r = inv_row.value a" by blast
qed

text \<open>
  Claim C3, as the code has it. Every fixed-cost record belongs to one (version,
  scenario, technology, region), whose table \<^verbatim>\<open>costs_tot\<close> holds the historical,
  projected and future rows. If the activity year is at most 2020, the value is the
  fixed cost of the row of that year, unchanged. If the vintage year is 2020 or later
  and the activity year is after 2020 (and within the horizon), the value is the fixed
  cost of the row of the vintage year times (1 - 0.0025) to the power of the number of
  years between vintage and activity: the decay starts at the vintage year with the
  vintage's own fixed cost, and at 2020 with the 2020 fixed cost only for the vintage
  2020. Nothing is stated for an earlier vintage in a later activity year.
\<close>

theorem fix_cost_decay_by_vintage:
  assumes ret: "create_message_inputs B L df = Inr (msg_inv, msg_fom)"
    and r: "r \<in> set (rows msg_fom)"
  shows "\<exists>h i j k ct.
           costs_tot B L (tech df h i j k) = Inr ct \<and> fix_key r = (h, i, j, k) \<and>
           (year_act r \<le> 2020 \<longrightarrow>
              (\<exists>p\<in>set (rows ct). year p = year_act r \<and> fix_row.value r = Some (fix_cost p))) \<and>
           (2020 \<le> year_vtg r \<and> 2020 < year_act r \<and> year_act r \<le> 2110 \<longrightarrow>
              (\<exists>q\<in>set (rows ct). year q = year_vtg r \<and>
                 fix_row.value r =
                   Some (fix_cost q * (1 - 0.0025) ^ nat (year_act r - year_vtg r))))"
proof -
  from r obtain h i j k ct y iv p where ct: "costs_tot B L (tech df h i j k) = Inr ct"
    and iv: "init_val (query (\<lambda>r. y \<le> year r) ct) y = Inr iv"
    and p: "p \<in> set (rows ct)" "y \<le> year p" and rp: "r = fix_record y iv p"
    unfolding in_msg_fom [OF ret] by auto
  have key: "fix_key r = (h, i, j, k)"
    using costs_tot_origin(1) [OF ct p(1)] rp by simp
  have old: "\<exists>p\<in>set (rows ct). year p = year_act r \<and> fix_row.value r = Some (fix_cost p)"
    if "year_act r \<le> 2020"
    using that p rp by auto
  have new: "\<exists>q\<in>set (rows ct). year q = year_vtg r \<and>
      fix_row.value r = Some (fix_cost q * (1 - 0.0025) ^ nat (year_act r - year_vtg r))"
    if "2020 \<le> year_vtg r \<and> 2020 < year_act r \<and> year_act r \<le> 2110"
  proof -
    from init_val_Inr [OF iv] obtain q where q: "q \<in> set (rows ct)" "year q = max y 2020"
      "iv = fix_cost q" by auto
    from that rp have "2020 \<le> y" "2020 < year p" "year p \<le> 2110" by simp_all
    with q p rp show ?thesis by (auto simp: map_of_decay_frame)
  qed
  from ct key old new show ?thesis by blast
qed

text \<open>
  For a vintage year up to 2020 and an activity year after 2020 the code starts from
  the fixed cost of 2020 and raises the rate to the number of years since the vintage
  year, not since 2020.
\<close>

lemma fix_cost_old_vintage:
  assumes ret: "create_message_inputs B L df = Inr (msg_inv, msg_fom)"
    and r: "r \<in> set (rows msg_fom)"
    and old: "year_vtg r \<le> 2020" "2020 < year_act r" "year_act r \<le> 2110"
  shows "\<exists>h i j k ct. costs_tot B L (tech df h i j k) = Inr ct \<and> fix_key r = (h, i, j, k) \<and>
           (\<exists>q\<in>set (rows ct). year q = 2020 \<and>
              fix_row.value r =
                Some (fix_cost q * (1 - 0.0025) ^ nat (year_act r - year_vtg r)))"
proof -
  from r obtain h i j k ct y iv p where ct: "costs_tot B L (tech df h i j k) = Inr ct"
    and iv: "init_val (query (\<lambda>r. y \<le> year r) ct) y = Inr iv"
    and p: "p \<in> set (rows ct)" "y \<le> year p" and rp: "r = fix_record y iv p"
    unfolding in_msg_fom [OF ret] by auto
  have key: "fix_key r = (h, i, j, k)"
    using costs_tot_origin(1) [OF ct p(1)] rp by simp
  from init_val_Inr [OF iv] obtain q where q: "q \<in> set (rows ct)" "year q = max y 2020"
    "iv = fix_cost q" by auto
  from old rp have "y \<le> 2020" "2020 < year p" "year p \<le> 2110" by simp_all
  with q p rp have "\<exists>q\<in>set (rows ct). year q = 2020 \<and>
      fix_row.value r = Some (fix_cost q * (1 - 0.0025) ^ nat (year_act r - year_vtg r))"
    by (auto simp: map_of_decay_frame)
  with ct key show ?thesis by blast
qed

lemma distinct_inv_columns: "distinct inv_columns"
  by (simp add: inv_columns_def)

lemma distinct_fix_columns: "distinct fix_columns"
  by (simp add: fix_columns_def)

lemma columns_of_results:
  assumes "create_message_inputs B L df = Inr (msg_inv, msg_fom)"
  shows "columns msg_inv = inv_columns" and "columns msg_fom = fix_columns"
proof -
  from assms obtain l where
    l: "list_all2 (\<lambda>g res. tech_results B L df g = Inr res) (groups df) l" "l \<noteq> []"
    and inv: "columns msg_inv = unique (concat (map columns (map fst l)))"
    and fom: "columns msg_fom = unique (concat (map columns (map snd l)))"
    unfolding create_message_inputs_Inr by auto
  have each: "columns (fst res) = inv_columns \<and> columns (snd res) = fix_columns"
    if "res \<in> set l" for res
  proof -
    from list_all2_right_member [OF l(1) that]
    obtain g where tr: "tech_results B L df g = Inr res" by auto
    obtain h i j k where gk: "g = (h, i, j, k)" by (cases g) auto
    obtain ti tf where rs: "res = (ti, tf)" by (cases res) auto
    from tr [unfolded gk rs tech_results_Inr] obtain ct lf where
      ti: "ti = tech_inv ct"
      and lf: "list_all2 (\<lambda>y F. fom_updated ct y = Inr F) seq_years lf"
      and tf: "columns tf = unique (concat (map columns lf))" by auto
    have "lf \<noteq> []" using lf seq_years_not_Nil by (auto dest: list_all2_lengthD)
    moreover have "columns F = fix_columns" if "F \<in> set lf" for F
      using list_all2_right_member [OF lf that] by (auto simp: fom_updated_Inr)
    ultimately have "unique (concat (map columns lf)) = fix_columns"
      by (intro unique_same_columns distinct_fix_columns) auto
    with ti tf rs show ?thesis by (simp add: tech_inv_def)
  qed
  from l(2) each show "columns msg_inv = inv_columns"
    unfolding inv by (intro unique_same_columns distinct_inv_columns) auto
  from l(2) each show "columns msg_fom = fix_columns"
    unfolding fom by (intro unique_same_columns distinct_fix_columns) auto
qed

text \<open>
  Claim C6, as the code has it. For a complete projection (not empty, with a record
  of every combination at every model year from 2020 to 2100), a base year after 1965
  and a last model year before 2105, \<^verbatim>\<open>create_message_inputs\<close> returns. Whenever
  it returns, the result is a pair of frames: the investment-cost frame has the columns
  scenario_version, scenario, node_loc, technology, year_vtg, value, unit, the
  fixed-cost frame has scenario_version, scenario, node_loc, technology, year_vtg,
  year_act, value, unit, in this order, and the unit of every row of both is USD/kWa.
\<close>

theorem create_message_inputs_columns:
  "(complete_projection df \<and> 1965 < B \<and> L < 2105 \<longrightarrow>
      (\<exists>msg_inv msg_fom. create_message_inputs B L df = Inr (msg_inv, msg_fom))) \<and>
   (\<forall>msg_inv msg_fom. create_message_inputs B L df = Inr (msg_inv, msg_fom) \<longrightarrow>
      columns msg_inv = [''scenario_version'', ''scenario'', ''node_loc'', ''technology'',
                         ''year_vtg'', ''value'', ''unit''] \<and>
      columns msg_fom = [''scenario_version'', ''scenario'', ''node_loc'', ''technology'',
                         ''year_vtg'', ''year_act'', ''value'', ''unit''] \<and>
      (\<forall>r\<in>set (rows msg_inv). inv_row.unit r = ''USD/kWa'') \<and>
      (\<forall>r\<in>set (rows msg_fom). fix_row.unit r = ''USD/kWa''))"
proof (intro conjI allI impI ballI)
  assume "complete_projection df \<and> 1965 < B \<and> L < 2105"
  then show "\<exists>msg_inv msg_fom. create_message_inputs B L df = Inr (msg_inv, msg_fom)"
    by (simp add: create_message_inputs_returns)
next
  fix msg_inv msg_fom assume ret: "create_message_inputs B L df = Inr (msg_inv, msg_fom)"
  from columns_of_results [OF ret]
  show "columns msg_inv = [''scenario_version'', ''scenario'', ''node_loc'', ''technology'',
                         ''year_vtg'', ''value'', ''unit'']"
    and "columns msg_fom = [''scenario_version'', ''scenario'', ''node_loc'', ''technology'',
                         ''year_vtg'', ''year_act'', ''value'', ''unit'']"
    by (simp_all add: inv_columns_def fix_columns_def)
  {
    fix r assume "r \<in> set (rows msg_inv)"
    then show "inv_row.unit r = ''USD/kWa''" unfolding in_msg_inv [OF ret] by auto
  }
  {
    fix r assume "r \<in> set (rows msg_fom)"
    then show "fix_row.unit r = ''USD/kWa''" unfolding in_msg_fom [OF ret] by auto
  }
qed

subsection \<open>The sample projection\<close>

lemma example_row_sel [simp]:
  "year (example_row y) = y"
  "inv_cost (example_row y) = 1000 - 2 * real_of_int (y - 2020)"
  "fix_cost (example_row y) = 100 - real_of_int (y - 2020)"
  "proj_key (example_row y) = (''updated'', ''SSP2'', ''coal_ppl'', ''R12_NAM'')"
  by (simp_all add: example_row_def proj_key_def)

lemma in_example_rows:
  "p \<in> set (rows example_proj) \<longleftrightarrow>
     (\<exists>y. p = example_row y \<and> 2020 \<le> y \<and> y \<le> 2100 \<and> y mod 5 = 0)"
  by (auto simp: example_proj_def seq_years_iff)

lemma example_row_member:
  assumes "2020 \<le> y" "y \<le> 2100" "y mod 5 = 0"
  shows "example_row y \<in> set (rows example_proj)"
  unfolding in_example_rows using assms by (intro exI [of _ y] conjI refl)

lemma example_rows_key:
  assumes "p \<in> set (rows example_proj)"
  shows "proj_key p = (''updated'', ''SSP2'', ''coal_ppl'', ''R12_NAM'')"
proof -
  from assms obtain y where "p = example_row y" unfolding in_example_rows by (elim exE conjE)
  then show ?thesis by (simp only: example_row_sel)
qed

lemma groups_single:
  assumes all: "\<And>p. p \<in> set (rows df) \<Longrightarrow> proj_key p = (a, b, c, d)"
    and g: "(h, i, j, k) \<in> set (groups df)"
  shows "(h, i, j, k) = (a, b, c, d)"
proof -
  from g have m: "h \<in> proj_row.scenario_version ` set (rows df)"
    "i \<in> proj_row.scenario ` set (rows df)"
    "j \<in> message_technology ` set (rows df)" "k \<in> region ` set (rows df)"
    unfolding in_groups by simp_all
  from m(1) obtain p1 where p1: "p1 \<in> set (rows df)" "h = proj_row.scenario_version p1" ..
  from m(2) obtain p2 where p2: "p2 \<in> set (rows df)" "i = proj_row.scenario p2" ..
  from m(3) obtain p3 where p3: "p3 \<in> set (rows df)" "j = message_technology p3" ..
  from m(4) obtain p4 where p4: "p4 \<in> set (rows df)" "k = region p4" ..
  from all [OF p1(1)] p1(2) have "h = a" by (simp add: proj_key_def)
  moreover from all [OF p2(1)] p2(2) have "i = b" by (simp add: proj_key_def)
  moreover from all [OF p3(1)] p3(2) have "j = c" by (simp add: proj_key_def)
  moreover from all [OF p4(1)] p4(2) have "k = d" by (simp add: proj_key_def)
  ultimately show ?thesis by simp
qed

lemma example_groups:
  "g \<in> set (groups example_proj) \<longleftrightarrow> g = (''updated'', ''SSP2'', ''coal_ppl'', ''R12_NAM'')"
proof
  assume a: "g \<in> set (groups example_proj)"
  obtain h i j k where g: "g = (h, i, j, k)" by (cases g) auto
  from groups_single [OF example_rows_key a [unfolded g]]
  show "g = (''updated'', ''SSP2'', ''coal_ppl'', ''R12_NAM'')" unfolding g .
next
  assume g: "g = (''updated'', ''SSP2'', ''coal_ppl'', ''R12_NAM'')"
  have "example_row 2020 \<in> set (rows example_proj)" by (rule example_row_member) simp_all
  from proj_key_in_groups [OF this] show "g \<in> set (groups example_proj)"
    unfolding g example_row_sel(4) .
qed

lemma example_complete: "complete_projection example_proj"
proof -
  have "example_row 2020 \<in> set (rows example_proj)" by (rule example_row_member) simp_all
  then have "rows example_proj \<noteq> []" by auto
  moreover have "\<exists>p\<in>set (rows example_proj). proj_key p = g \<and> year p = y"
    if "g \<in> set (groups example_proj)" "y \<in> set seq_years" "2020 \<le> y" "y \<le> 2100" for g y
  proof -
    from that have "example_row y \<in> set (rows example_proj)"
      by (intro example_row_member) (simp_all add: seq_years_iff)
    moreover have "proj_key (example_row y) = g \<and> year (example_row y) = y"
      using that(1) by (simp add: example_groups)
    ultimately show ?thesis by blast
  qed
  ultimately show ?thesis
    by (auto simp: complete_projection_def list_all_iff list_ex_iff)
qed

lemma example_returns:
  assumes "1965 < B"
  shows "\<exists>msg_inv msg_fom. create_message_inputs B 2100 example_proj = Inr (msg_inv, msg_fom)"
  using assms by (intro create_message_inputs_returns [OF example_complete]) simp_all

lemma example_tech:
  "rows (tech example_proj ''updated'' ''SSP2'' ''coal_ppl'' ''R12_NAM'') = rows example_proj"
  by (simp add: tech_def query_def example_proj_def example_row_def)

lemma example_costs_tot:
  assumes "1965 < B"
  shows "\<exists>ct. costs_tot B 2100 (tech example_proj ''updated'' ''SSP2'' ''coal_ppl'' ''R12_NAM'')
     = Inr ct"
  using assms by (simp add: costs_tot_Inr hist_years_not_Nil fut_years_not_Nil)

lemma example_ct_own:
  assumes ct: "costs_tot B 2100 (tech example_proj ''updated'' ''SSP2'' ''coal_ppl''
      ''R12_NAM'') = Inr ct"
    and y: "2020 \<le> y" "y \<le> 2100" "y mod 5 = 0"
  shows "example_row y \<in> set (rows ct)"
proof -
  have "example_row y \<in> set (rows (tech example_proj ''updated'' ''SSP2'' ''coal_ppl''
      ''R12_NAM''))"
    unfolding example_tech using y by (rule example_row_member)
  then show ?thesis unfolding in_costs_tot [OF ct] by (rule disjI1)
qed

lemma example_ct_fut:
  assumes ct: "costs_tot B 2100 (tech example_proj ''updated'' ''SSP2'' ''coal_ppl''
      ''R12_NAM'') = Inr ct"
    and y: "y = 2105 \<or> y = 2110"
  shows "(example_row 2100)\<lparr>year := y\<rparr> \<in> set (rows ct)"
proof -
  have m: "example_row 2100 \<in> set (rows (tech example_proj ''updated'' ''SSP2'' ''coal_ppl''
      ''R12_NAM''))"
    unfolding example_tech by (rule example_row_member) simp_all
  have f: "y \<in> set (fut_years 2100)" using y by (auto simp: fut_years_iff seq_years_iff)
  have yr: "year (example_row 2100) = 2100" by simp
  from m f yr show ?thesis unfolding in_costs_tot [OF ct]
    by (intro disjI2 bexI [of _ "example_row 2100"] bexI [of _ y] conjI refl)
qed

lemma example_ct_hist:
  assumes ct: "costs_tot B 2100 (tech example_proj ''updated'' ''SSP2'' ''coal_ppl''
      ''R12_NAM'') = Inr ct"
    and y: "1960 \<le> y" "y < B - 5" "y \<le> 2110" "y mod 5 = 0"
  shows "(example_row 2020)\<lparr>year := y\<rparr> \<in> set (rows ct)"
proof -
  have m: "example_row 2020 \<in> set (rows (tech example_proj ''updated'' ''SSP2'' ''coal_ppl''
      ''R12_NAM''))"
    unfolding example_tech by (rule example_row_member) simp_all
  have f: "y \<in> set (hist_years B)" using y by (simp add: hist_years_iff seq_years_iff)
  have yr: "year (example_row 2020) = 2020" by simp
  from m f yr show ?thesis unfolding in_costs_tot [OF ct]
    by (intro disjI2 disjI1 bexI [of _ "example_row 2020"] bexI [of _ y] conjI refl)
qed

lemma example_ct_model_year:
  assumes B: "B \<le> 2025"
    and ct: "costs_tot B 2100 (tech example_proj ''updated'' ''SSP2'' ''coal_ppl''
      ''R12_NAM'') = Inr ct"
    and q: "q \<in> set (rows ct)" and yq: "2020 \<le> year q" "year q \<le> 2100"
  shows "q = example_row (year q)"
proof -
  from q consider
      (own) "q \<in> set (rows example_proj)"
    | (hist) q' y where "y \<in> set (hist_years B)" "q = q'\<lparr>year := y\<rparr>"
    | (fut) q' y where "y \<in> set (fut_years 2100)" "q = q'\<lparr>year := y\<rparr>"
    unfolding in_costs_tot [OF ct] example_tech by (elim disjE bexE conjE)
  then show ?thesis
  proof cases
    case own
    then obtain y where "q = example_row y" unfolding in_example_rows by (elim exE conjE)
    then show ?thesis by simp
  next
    case hist
    then have "year q < B - 5" by (simp add: hist_years_iff)
    with yq B show ?thesis by simp
  next
    case fut
    then have "2100 < year q" by (simp add: fut_years_iff)
    with yq show ?thesis by simp
  qed
qed

lemma example_init_val:
  assumes B: "B \<le> 2025"
    and ct: "costs_tot B 2100 (tech example_proj ''updated'' ''SSP2'' ''coal_ppl''
      ''R12_NAM'') = Inr ct"
    and y: "2020 \<le> y" "y \<le> 2100" "y mod 5 = 0"
  shows "init_val (query (\<lambda>r. y \<le> year r) ct) y = Inr (100 - real_of_int (y - 2020))"
proof -
  have "year (example_row y) = max y 2020" using y by simp
  with example_ct_own [OF ct y]
  obtain iv where iv: "init_val (query (\<lambda>r. y \<le> year r) ct) y = Inr iv"
    using init_val_total by metis
  from init_val_Inr [OF iv] obtain q where q: "q \<in> set (rows ct)" "year q = max y 2020"
    "iv = fix_cost q" by (elim bexE conjE)
  from q(2) y have yq: "year q = y" by simp
  with example_ct_model_year [OF B ct q(1)] y have "q = example_row y" by simp
  then have "fix_cost q = 100 - real_of_int (y - 2020)" by simp
  with q(3) iv show ?thesis by simp
qed

lemma example_fom_member:
  assumes B: "B \<le> 2025"
    and ret: "create_message_inputs B 2100 example_proj = Inr (msg_inv, msg_fom)"
    and ct: "costs_tot B 2100 (tech example_proj ''updated'' ''SSP2'' ''coal_ppl''
      ''R12_NAM'') = Inr ct"
    and y: "2020 \<le> y" "y \<le> 2100" "y mod 5 = 0"
    and p: "p \<in> set (rows ct)" "y \<le> year p"
  shows "fix_record y (100 - real_of_int (y - 2020)) p \<in> set (rows msg_fom)"
proof -
  have g: "(''updated'', ''SSP2'', ''coal_ppl'', ''R12_NAM'') \<in> set (groups example_proj)"
    by (simp add: example_groups)
  have sy: "y \<in> set seq_years" using y by (simp add: seq_years_iff)
  from g ct sy example_init_val [OF B ct y] p show ?thesis
    unfolding in_msg_fom [OF ret] by (intro exI conjI) (assumption | rule refl)+
qed

lemma example_inv_member:
  assumes ret: "create_message_inputs B 2100 example_proj = Inr (msg_inv, msg_fom)"
    and ct: "costs_tot B 2100 (tech example_proj ''updated'' ''SSP2'' ''coal_ppl''
      ''R12_NAM'') = Inr ct"
    and p: "p \<in> set (rows ct)"
  shows "inv_record p \<in> set (rows msg_inv)"
proof -
  have g: "(''updated'', ''SSP2'', ''coal_ppl'', ''R12_NAM'') \<in> set (groups example_proj)"
    by (simp add: example_groups)
  from p have "inv_record p \<in> inv_record ` set (rows ct)" by (rule imageI)
  with g ct show ?thesis
    unfolding in_msg_inv [OF ret] by (intro exI conjI) assumption+
qed

subsection \<open>The properties on the sample projection\<close>

lemma example_nonneg:
  "\<forall>p\<in>set (rows example_proj). 0 \<le> inv_cost p \<and> 0 \<le> fix_cost p"
proof
  fix p assume "p \<in> set (rows example_proj)"
  then obtain y where "p = example_row y" "2020 \<le> y" "y \<le> 2100"
    unfolding in_example_rows by (elim exE conjE)
  then show "0 \<le> inv_cost p \<and> 0 \<le> fix_cost p" by simp
qed

lemma example_anchor:
  "\<forall>p\<in>set (rows example_proj). year p < 2021 \<longrightarrow> year p = 2020"
proof
  fix p assume "p \<in> set (rows example_proj)"
  then obtain y where "p = example_row y" "2020 \<le> y" "y \<le> 2100"
    unfolding in_example_rows by (elim exE conjE)
  then show "year p < 2021 \<longrightarrow> year p = 2020" by simp
qed

lemma example_horizon:
  "\<forall>p\<in>set (rows example_proj). year p \<le> 2100"
proof
  fix p assume "p \<in> set (rows example_proj)"
  then obtain y where "p = example_row y" "2020 \<le> y" "y \<le> 2100"
    unfolding in_example_rows by (elim exE conjE)
  then show "year p \<le> 2100" by simp
qed

theorem fom_year_act_ge_year_vtg_witness:
  "\<exists>msg_inv msg_fom.
     create_message_inputs 2021 2100 example_proj = Inr (msg_inv, msg_fom) \<and>
     fix_record 2025 95 (example_row 2030) \<in> set (rows msg_fom) \<and>
     year_vtg (fix_record 2025 95 (example_row 2030))
       \<le> year_act (fix_record 2025 95 (example_row 2030)) \<and>
     year_vtg (fix_record 2025 95 (example_row 2030)) \<in> set seq_years"
proof -
  have B1: "(1965::int) < 2021" and B2: "(2021::int) \<le> 2025" by simp_all
  from example_returns [OF B1] obtain msg_inv msg_fom where
    ret: "create_message_inputs 2021 2100 example_proj = Inr (msg_inv, msg_fom)"
    by (elim exE)
  from example_costs_tot [OF B1] obtain ct where
    ct: "costs_tot 2021 2100 (tech example_proj ''updated'' ''SSP2'' ''coal_ppl'' ''R12_NAM'')
      = Inr ct" by (elim exE)
  have p: "example_row 2030 \<in> set (rows ct)" by (rule example_ct_own [OF ct]) simp_all
  have "fix_record 2025 (100 - real_of_int (2025 - 2020)) (example_row 2030)
      \<in> set (rows msg_fom)"
    by (rule example_fom_member [OF B2 ret ct _ _ _ p]) simp_all
  then have mem: "fix_record 2025 95 (example_row 2030) \<in> set (rows msg_fom)" by simp
  from fom_year_act_ge_year_vtg [OF ret mem] ret mem show ?thesis
    by (intro exI [of _ msg_inv] exI [of _ msg_fom] conjI) (elim conjE, assumption)+
qed

theorem costs_nonnegative_witness:
  "\<exists>msg_inv msg_fom.
     create_message_inputs 2021 2100 example_proj = Inr (msg_inv, msg_fom) \<and>
     list_all (\<lambda>p. 0 \<le> inv_cost p \<and> 0 \<le> fix_cost p) (rows example_proj) \<and>
     inv_record (example_row 2030) \<in> set (rows msg_inv) \<and>
     0 \<le> inv_row.value (inv_record (example_row 2030)) \<and>
     fix_record 2025 95 (example_row 2030) \<in> set (rows msg_fom) \<and>
     (\<exists>v. fix_row.value (fix_record 2025 95 (example_row 2030)) = Some v \<and> 0 \<le> v)"
proof -
  have B1: "(1965::int) < 2021" and B2: "(2021::int) \<le> 2025" by simp_all
  from example_returns [OF B1] obtain msg_inv msg_fom where
    ret: "create_message_inputs 2021 2100 example_proj = Inr (msg_inv, msg_fom)"
    by (elim exE)
  from example_costs_tot [OF B1] obtain ct where
    ct: "costs_tot 2021 2100 (tech example_proj ''updated'' ''SSP2'' ''coal_ppl'' ''R12_NAM'')
      = Inr ct" by (elim exE)
  have p: "example_row 2030 \<in> set (rows ct)" by (rule example_ct_own [OF ct]) simp_all
  have "fix_record 2025 (100 - real_of_int (2025 - 2020)) (example_row 2030)
      \<in> set (rows msg_fom)"
    by (rule example_fom_member [OF B2 ret ct _ _ _ p]) simp_all
  then have mem: "fix_record 2025 95 (example_row 2030) \<in> set (rows msg_fom)" by simp
  have memi: "inv_record (example_row 2030) \<in> set (rows msg_inv)"
    by (rule example_inv_member [OF ret ct p])
  have hor: "year_act (fix_record 2025 95 (example_row 2030)) \<le> HORIZON_END"
    by (simp add: HORIZON_END_def)
  note inst = costs_nonnegative [OF ret example_nonneg]
  from inst memi have c1: "0 \<le> inv_row.value (inv_record (example_row 2030))"
    by (elim conjE) (erule bspec)
  from inst mem hor
  have c2: "\<exists>v. fix_row.value (fix_record 2025 95 (example_row 2030)) = Some v \<and> 0 \<le> v"
    by (elim conjE) (drule (1) bspec, erule (1) mp)
  have c0: "list_all (\<lambda>p. 0 \<le> inv_cost p \<and> 0 \<le> fix_cost p) (rows example_proj)"
    unfolding list_all_iff by (rule example_nonneg)
  from ret c0 memi c1 mem c2 show ?thesis
    by (intro exI [of _ msg_inv] exI [of _ msg_fom] conjI)
qed

theorem inv_cost_before_base_year_witness:
  "\<exists>msg_inv msg_fom.
     create_message_inputs 2021 2100 example_proj = Inr (msg_inv, msg_fom) \<and>
     (2021::int) \<le> 2100 \<and>
     list_all (\<lambda>p. year p < 2021 \<longrightarrow> year p = 2020) (rows example_proj) \<and>
     inv_record ((example_row 2020)\<lparr>year := 1960\<rparr>) \<in> set (rows msg_inv) \<and>
     inv_row.year_vtg (inv_record ((example_row 2020)\<lparr>year := 1960\<rparr>)) < 2021 \<and>
     (\<exists>a\<in>set (rows msg_inv).
        inv_key a = inv_key (inv_record ((example_row 2020)\<lparr>year := 1960\<rparr>)) \<and>
        inv_row.year_vtg a = 2020 \<and>
        inv_row.value a = inv_row.value (inv_record ((example_row 2020)\<lparr>year := 1960\<rparr>)))"
proof -
  have B1: "(1965::int) < 2021" and B2: "(2021::int) \<le> 2025" by simp_all
  from example_returns [OF B1] obtain msg_inv msg_fom where
    ret: "create_message_inputs 2021 2100 example_proj = Inr (msg_inv, msg_fom)"
    by (elim exE)
  from example_costs_tot [OF B1] obtain ct where
    ct: "costs_tot 2021 2100 (tech example_proj ''updated'' ''SSP2'' ''coal_ppl'' ''R12_NAM'')
      = Inr ct" by (elim exE)
  have p: "(example_row 2020)\<lparr>year := 1960\<rparr> \<in> set (rows ct)"
    by (rule example_ct_hist [OF ct]) simp_all
  have mem: "inv_record ((example_row 2020)\<lparr>year := 1960\<rparr>) \<in> set (rows msg_inv)"
    by (rule example_inv_member [OF ret ct p])
  have BL: "(2021::int) \<le> 2100" by simp
  have before: "inv_row.year_vtg (inv_record ((example_row 2020)\<lparr>year := 1960\<rparr>)) < 2021"
    by simp
  have c0: "list_all (\<lambda>p. year p < 2021 \<longrightarrow> year p = 2020) (rows example_proj)"
    unfolding list_all_iff by (rule example_anchor)
  note inst = inv_cost_before_base_year [OF ret BL mem before, THEN conjunct2, THEN mp,
      OF example_anchor]
  from ret BL c0 mem before inst show ?thesis
    by (intro exI [of _ msg_inv] exI [of _ msg_fom] conjI)
qed

lemma in_early_rows:
  "p \<in> set (rows early_proj) \<longleftrightarrow> p = example_row 2015 \<or> p \<in> set (rows example_proj)"
  by (simp add: early_proj_def)

lemma early_rows_key:
  assumes "p \<in> set (rows early_proj)"
  shows "proj_key p = (''updated'', ''SSP2'', ''coal_ppl'', ''R12_NAM'')"
  using assms unfolding in_early_rows
proof (elim disjE)
  assume "p = example_row 2015"
  then show ?thesis by (simp only: example_row_sel)
next
  assume "p \<in> set (rows example_proj)"
  then show ?thesis by (rule example_rows_key)
qed

lemma early_row_member:
  assumes "2020 \<le> y" "y \<le> 2100" "y mod 5 = 0"
  shows "example_row y \<in> set (rows early_proj)"
  unfolding in_early_rows using example_row_member [OF assms] by (rule disjI2)

lemma early_groups:
  "g \<in> set (groups early_proj) \<longleftrightarrow> g = (''updated'', ''SSP2'', ''coal_ppl'', ''R12_NAM'')"
proof
  assume a: "g \<in> set (groups early_proj)"
  obtain h i j k where g: "g = (h, i, j, k)" by (cases g) auto
  from groups_single [OF early_rows_key a [unfolded g]]
  show "g = (''updated'', ''SSP2'', ''coal_ppl'', ''R12_NAM'')" unfolding g .
next
  assume g: "g = (''updated'', ''SSP2'', ''coal_ppl'', ''R12_NAM'')"
  have "example_row 2020 \<in> set (rows early_proj)" by (rule early_row_member) simp_all
  from proj_key_in_groups [OF this] show "g \<in> set (groups early_proj)"
    unfolding g example_row_sel(4) .
qed

lemma early_complete: "complete_projection early_proj"
proof -
  have "rows early_proj \<noteq> []" by (simp add: early_proj_def)
  moreover have "\<exists>p\<in>set (rows early_proj). proj_key p = g \<and> year p = y"
    if "g \<in> set (groups early_proj)" "y \<in> set seq_years" "2020 \<le> y" "y \<le> 2100" for g y
  proof -
    from that have "example_row y \<in> set (rows early_proj)"
      by (intro early_row_member) (simp_all add: seq_years_iff)
    moreover have "proj_key (example_row y) = g \<and> year (example_row y) = y"
      using that(1) by (simp add: early_groups)
    ultimately show ?thesis by (rule bexI [rotated])
  qed
  ultimately show ?thesis
    by (auto simp: complete_projection_def list_all_iff list_ex_iff)
qed

lemma early_tech:
  "rows (tech early_proj ''updated'' ''SSP2'' ''coal_ppl'' ''R12_NAM'') = rows early_proj"
  by (simp add: tech_def query_def early_proj_def example_proj_def example_row_def)

lemma early_row_2020:
  assumes "p \<in> set (rows early_proj)" and "year p = 2020"
  shows "inv_cost p = 1000"
  using assms(1) unfolding in_early_rows
proof (elim disjE)
  assume "p = example_row 2015"
  with assms(2) show ?thesis by simp
next
  assume "p \<in> set (rows example_proj)"
  then obtain y where "p = example_row y" unfolding in_example_rows by (elim exE conjE)
  with assms(2) show ?thesis by simp
qed

text \<open>
  With the base year 2021 and a projection that starts at 2015, the record of 2015 is
  passed through with its own investment cost, 1010, while every record at 2020 has 1000.
\<close>

theorem inv_cost_before_base_year_counterexample:
  "\<exists>msg_inv msg_fom.
     create_message_inputs 2021 2100 early_proj = Inr (msg_inv, msg_fom) \<and>
     inv_record (example_row 2015) \<in> set (rows msg_inv) \<and>
     inv_row.year_vtg (inv_record (example_row 2015)) = 2015 \<and>
     inv_row.value (inv_record (example_row 2015)) = 1010 \<and>
     (\<forall>a\<in>set (rows msg_inv). inv_row.year_vtg a = 2020 \<longrightarrow> inv_row.value a = 1000)"
proof -
  have "\<exists>msg_inv msg_fom. create_message_inputs 2021 2100 early_proj = Inr (msg_inv, msg_fom)"
    by (intro create_message_inputs_returns [OF early_complete]) simp_all
  then obtain msg_inv msg_fom where
    ret: "create_message_inputs 2021 2100 early_proj = Inr (msg_inv, msg_fom)"
    by (elim exE)
  have "\<exists>ct. costs_tot 2021 2100 (tech early_proj ''updated'' ''SSP2'' ''coal_ppl'' ''R12_NAM'')
      = Inr ct"
    by (simp add: costs_tot_Inr hist_years_not_Nil fut_years_not_Nil)
  then obtain ct where
    ct: "costs_tot 2021 2100 (tech early_proj ''updated'' ''SSP2'' ''coal_ppl'' ''R12_NAM'')
      = Inr ct" by (elim exE)
  have g: "(''updated'', ''SSP2'', ''coal_ppl'', ''R12_NAM'') \<in> set (groups early_proj)"
    by (simp add: early_groups)
  have "example_row 2015 \<in> set (rows (tech early_proj ''updated'' ''SSP2'' ''coal_ppl''
      ''R12_NAM''))"
    unfolding early_tech in_early_rows by (rule disjI1) (rule refl)
  then have p: "example_row 2015 \<in> set (rows ct)"
    unfolding in_costs_tot [OF ct] by (rule disjI1)
  then have "inv_record (example_row 2015) \<in> inv_record ` set (rows ct)" by (rule imageI)
  with g ct have mem: "inv_record (example_row 2015) \<in> set (rows msg_inv)"
    unfolding in_msg_inv [OF ret] by (intro exI conjI) assumption+
  have y: "inv_row.year_vtg (inv_record (example_row 2015)) = 2015"
    and v: "inv_row.value (inv_record (example_row 2015)) = 1010"
    by simp_all
  have all: "\<forall>a\<in>set (rows msg_inv). inv_row.year_vtg a = 2020 \<longrightarrow> inv_row.value a = 1000"
  proof (intro ballI impI)
    fix a assume a: "a \<in> set (rows msg_inv)" and ya: "inv_row.year_vtg a = 2020"
    from a obtain h i j k ct' q where g': "(h, i, j, k) \<in> set (groups early_proj)"
      and ct': "costs_tot 2021 2100 (tech early_proj h i j k) = Inr ct'"
      and q: "q \<in> set (rows ct')" and aq: "a = inv_record q"
      unfolding in_msg_inv [OF ret] by (elim exE conjE imageE)
    from g' have "(h, i, j, k) = (''updated'', ''SSP2'', ''coal_ppl'', ''R12_NAM'')"
      by (simp only: early_groups)
    with ct' have ct'': "costs_tot 2021 2100
        (tech early_proj ''updated'' ''SSP2'' ''coal_ppl'' ''R12_NAM'') = Inr ct'" by simp
    from ya aq have yq: "year q = 2020" by simp
    from q consider
        (own) "q \<in> set (rows early_proj)"
      | (hist) q' y where "y \<in> set (hist_years 2021)" "q = q'\<lparr>year := y\<rparr>"
      | (fut) q' y where "y \<in> set (fut_years 2100)" "q = q'\<lparr>year := y\<rparr>"
      unfolding in_costs_tot [OF ct''] early_tech by (elim disjE bexE conjE)
    then have "inv_cost q = 1000"
    proof cases
      case own
      from early_row_2020 [OF own yq] show ?thesis .
    next
      case hist
      then have "year q < 2016" by (simp add: hist_years_iff)
      with yq show ?thesis by simp
    next
      case fut
      then have "2100 < year q" by (simp add: fut_years_iff)
      with yq show ?thesis by simp
    qed
    with aq show "inv_row.value a = 1000" by simp
  qed
  from ret mem y v all show ?thesis
    by (intro exI [of _ msg_inv] exI [of _ msg_fom] conjI)
qed

theorem inv_cost_after_last_model_year_witness:
  "\<exists>msg_inv msg_fom.
     create_message_inputs 2021 2100 example_proj = Inr (msg_inv, msg_fom) \<and>
     (2021::int) \<le> 2100 \<and>
     list_all (\<lambda>p. year p \<le> 2100) (rows example_proj) \<and>
     inv_record ((example_row 2100)\<lparr>year := 2105\<rparr>) \<in> set (rows msg_inv) \<and>
     2100 < inv_row.year_vtg (inv_record ((example_row 2100)\<lparr>year := 2105\<rparr>)) \<and>
     (\<exists>a\<in>set (rows msg_inv).
        inv_key a = inv_key (inv_record ((example_row 2100)\<lparr>year := 2105\<rparr>)) \<and>
        inv_row.year_vtg a = 2100 \<and>
        inv_row.value a = inv_row.value (inv_record ((example_row 2100)\<lparr>year := 2105\<rparr>))) \<and>
     inv_record (example_row 2100) \<in> set (rows msg_inv) \<and>
     inv_row.year_vtg (inv_record (example_row 2100)) = 2100 \<and>
     (\<exists>r\<in>set (rows msg_inv).
        inv_key r = inv_key (inv_record (example_row 2100)) \<and>
        inv_row.year_vtg r = 2110 \<and>
        inv_row.value r = inv_row.value (inv_record (example_row 2100)))"
proof -
  have B1: "(1965::int) < 2021" and B2: "(2021::int) \<le> 2025" by simp_all
  from example_returns [OF B1] obtain msg_inv msg_fom where
    ret: "create_message_inputs 2021 2100 example_proj = Inr (msg_inv, msg_fom)"
    by (elim exE)
  from example_costs_tot [OF B1] obtain ct where
    ct: "costs_tot 2021 2100 (tech example_proj ''updated'' ''SSP2'' ''coal_ppl'' ''R12_NAM'')
      = Inr ct" by (elim exE)
  have p: "(example_row 2100)\<lparr>year := 2105\<rparr> \<in> set (rows ct)"
    by (rule example_ct_fut [OF ct]) simp
  have mem: "inv_record ((example_row 2100)\<lparr>year := 2105\<rparr>) \<in> set (rows msg_inv)"
    by (rule example_inv_member [OF ret ct p])
  have B: "(2021::int) \<le> 2100" by simp
  have after: "2100 < inv_row.year_vtg (inv_record ((example_row 2100)\<lparr>year := 2105\<rparr>))"
    by simp
  have c0: "list_all (\<lambda>p. year p \<le> 2100) (rows example_proj)"
    unfolding list_all_iff by (rule example_horizon)
  note inst = inv_cost_after_last_model_year [OF ret B example_horizon]
  from inst mem after have c: "\<exists>a\<in>set (rows msg_inv).
        inv_key a = inv_key (inv_record ((example_row 2100)\<lparr>year := 2105\<rparr>)) \<and>
        inv_row.year_vtg a = 2100 \<and>
        inv_row.value a = inv_row.value (inv_record ((example_row 2100)\<lparr>year := 2105\<rparr>))"
    by (elim conjE) (drule (1) bspec, drule (1) mp, elim conjE)
  have p0: "example_row 2100 \<in> set (rows ct)" by (rule example_ct_own [OF ct]) simp_all
  have mem0: "inv_record (example_row 2100) \<in> set (rows msg_inv)"
    by (rule example_inv_member [OF ret ct p0])
  have at: "inv_row.year_vtg (inv_record (example_row 2100)) = 2100" by simp
  have y: "(2110::int) \<in> {2105, 2110}" by simp
  note rep = inst [THEN conjunct2, THEN bspec, OF mem0, THEN mp, OF at, THEN bspec, OF y]
  from ret B c0 mem after c mem0 at rep show ?thesis
    by (intro exI [of _ msg_inv] exI [of _ msg_fom] conjI)
qed

text \<open>
  In the fixed-cost frame of the sample projection, the record of vintage 2100 at the
  activity year 2105 does not carry the value of the record of that vintage at 2100.
\<close>

theorem inv_cost_after_last_model_year_fom_counterexample:
  "\<exists>msg_inv msg_fom.
     create_message_inputs 2021 2100 example_proj = Inr (msg_inv, msg_fom) \<and>
     fix_record 2100 20 ((example_row 2100)\<lparr>year := 2105\<rparr>) \<in> set (rows msg_fom) \<and>
     year_vtg (fix_record 2100 20 ((example_row 2100)\<lparr>year := 2105\<rparr>)) = 2100 \<and>
     year_act (fix_record 2100 20 ((example_row 2100)\<lparr>year := 2105\<rparr>)) = 2105 \<and>
     fix_row.value (fix_record 2100 20 ((example_row 2100)\<lparr>year := 2105\<rparr>))
       = Some (20 * (1 - 0.0025) ^ 5) \<and>
     fix_record 2100 20 (example_row 2100) \<in> set (rows msg_fom) \<and>
     year_vtg (fix_record 2100 20 (example_row 2100)) = 2100 \<and>
     year_act (fix_record 2100 20 (example_row 2100)) = 2100 \<and>
     fix_row.value (fix_record 2100 20 (example_row 2100)) = Some 20 \<and>
     (20::real) * (1 - 0.0025) ^ 5 < 20 - 0.2"
proof -
  have B1: "(1965::int) < 2021" and B2: "(2021::int) \<le> 2025" by simp_all
  from example_returns [OF B1] obtain msg_inv msg_fom where
    ret: "create_message_inputs 2021 2100 example_proj = Inr (msg_inv, msg_fom)"
    by (elim exE)
  from example_costs_tot [OF B1] obtain ct where
    ct: "costs_tot 2021 2100 (tech example_proj ''updated'' ''SSP2'' ''coal_ppl'' ''R12_NAM'')
      = Inr ct" by (elim exE)
  have p5: "(example_row 2100)\<lparr>year := 2105\<rparr> \<in> set (rows ct)"
    by (rule example_ct_fut [OF ct]) simp
  have p0: "example_row 2100 \<in> set (rows ct)" by (rule example_ct_own [OF ct]) simp_all
  have "fix_record 2100 (100 - real_of_int (2100 - 2020)) ((example_row 2100)\<lparr>year := 2105\<rparr>)
      \<in> set (rows msg_fom)"
    by (rule example_fom_member [OF B2 ret ct _ _ _ p5]) simp_all
  then have m5: "fix_record 2100 20 ((example_row 2100)\<lparr>year := 2105\<rparr>) \<in> set (rows msg_fom)"
    by simp
  have "fix_record 2100 (100 - real_of_int (2100 - 2020)) (example_row 2100)
      \<in> set (rows msg_fom)"
    by (rule example_fom_member [OF B2 ret ct _ _ _ p0]) simp_all
  then have m0: "fix_record 2100 20 (example_row 2100) \<in> set (rows msg_fom)" by simp
  have v5: "fix_row.value (fix_record 2100 20 ((example_row 2100)\<lparr>year := 2105\<rparr>))
       = Some (20 * (1 - 0.0025) ^ 5)"
    by (simp add: map_of_decay_frame)
  have v0: "fix_row.value (fix_record 2100 20 (example_row 2100)) = Some 20"
    by (simp add: map_of_decay_frame)
  have y1: "year_vtg (fix_record 2100 20 ((example_row 2100)\<lparr>year := 2105\<rparr>)) = 2100"
    and y2: "year_act (fix_record 2100 20 ((example_row 2100)\<lparr>year := 2105\<rparr>)) = 2105"
    and y3: "year_vtg (fix_record 2100 20 (example_row 2100)) = 2100"
    and y4: "year_act (fix_record 2100 20 (example_row 2100)) = 2100"
    by simp_all
  have ne: "(20::real) * (1 - 0.0025) ^ 5 < 20 - 0.2" by (simp add: power_divide)
  from ret m5 y1 y2 v5 m0 y3 y4 v0 ne show ?thesis
    by (intro exI [of _ msg_inv] exI [of _ msg_fom] conjI)
qed

theorem fix_cost_decay_by_vintage_witness:
  "\<exists>msg_inv msg_fom.
     create_message_inputs 2021 2100 example_proj = Inr (msg_inv, msg_fom) \<and>
     fix_record 2025 95 (example_row 2030) \<in> set (rows msg_fom) \<and>
     (\<exists>h i j k ct.
        costs_tot 2021 2100 (tech example_proj h i j k) = Inr ct \<and>
        fix_key (fix_record 2025 95 (example_row 2030)) = (h, i, j, k) \<and>
        (\<exists>q\<in>set (rows ct). year q = 2025 \<and>
           fix_row.value (fix_record 2025 95 (example_row 2030))
             = Some (fix_cost q * (1 - 0.0025) ^ 5))) \<and>
     fix_record 2020 100 (example_row 2020) \<in> set (rows msg_fom) \<and>
     (\<exists>h i j k ct.
        costs_tot 2021 2100 (tech example_proj h i j k) = Inr ct \<and>
        fix_key (fix_record 2020 100 (example_row 2020)) = (h, i, j, k) \<and>
        (\<exists>p\<in>set (rows ct). year p = 2020 \<and>
           fix_row.value (fix_record 2020 100 (example_row 2020)) = Some (fix_cost p)))"
proof -
  have B1: "(1965::int) < 2021" and B2: "(2021::int) \<le> 2025" by simp_all
  from example_returns [OF B1] obtain msg_inv msg_fom where
    ret: "create_message_inputs 2021 2100 example_proj = Inr (msg_inv, msg_fom)"
    by (elim exE)
  from example_costs_tot [OF B1] obtain ct0 where
    ct0: "costs_tot 2021 2100 (tech example_proj ''updated'' ''SSP2'' ''coal_ppl'' ''R12_NAM'')
      = Inr ct0" by (elim exE)
  have p: "example_row 2030 \<in> set (rows ct0)" by (rule example_ct_own [OF ct0]) simp_all
  have "fix_record 2025 (100 - real_of_int (2025 - 2020)) (example_row 2030)
      \<in> set (rows msg_fom)"
    by (rule example_fom_member [OF B2 ret ct0 _ _ _ p]) simp_all
  then have mem: "fix_record 2025 95 (example_row 2030) \<in> set (rows msg_fom)" by simp
  from fix_cost_decay_by_vintage [OF ret mem] obtain h i j k ct where
    ct: "costs_tot 2021 2100 (tech example_proj h i j k) = Inr ct"
    and key: "fix_key (fix_record 2025 95 (example_row 2030)) = (h, i, j, k)"
    and new: "2020 \<le> year_vtg (fix_record 2025 95 (example_row 2030)) \<and>
       2020 < year_act (fix_record 2025 95 (example_row 2030)) \<and>
       year_act (fix_record 2025 95 (example_row 2030)) \<le> 2110 \<longrightarrow>
       (\<exists>q\<in>set (rows ct). year q = year_vtg (fix_record 2025 95 (example_row 2030)) \<and>
          fix_row.value (fix_record 2025 95 (example_row 2030)) =
            Some (fix_cost q * (1 - 0.0025) ^
              nat (year_act (fix_record 2025 95 (example_row 2030))
                   - year_vtg (fix_record 2025 95 (example_row 2030)))))"
    by (elim exE conjE)
  from new have c: "\<exists>q\<in>set (rows ct). year q = 2025 \<and>
      fix_row.value (fix_record 2025 95 (example_row 2030)) = Some (fix_cost q * (1 - 0.0025) ^ 5)"
    by (simp del: fix_record_sel(4) add: fix_record_sel(1,2))
  have first: "\<exists>h i j k ct.
        costs_tot 2021 2100 (tech example_proj h i j k) = Inr ct \<and>
        fix_key (fix_record 2025 95 (example_row 2030)) = (h, i, j, k) \<and>
        (\<exists>q\<in>set (rows ct). year q = 2025 \<and>
           fix_row.value (fix_record 2025 95 (example_row 2030))
             = Some (fix_cost q * (1 - 0.0025) ^ 5))"
    using ct key c
    by (intro exI [of _ h] exI [of _ i] exI [of _ j] exI [of _ k] exI [of _ ct] conjI)
  have p0: "example_row 2020 \<in> set (rows ct0)" by (rule example_ct_own [OF ct0]) simp_all
  have "fix_record 2020 (100 - real_of_int (2020 - 2020)) (example_row 2020)
      \<in> set (rows msg_fom)"
    by (rule example_fom_member [OF B2 ret ct0 _ _ _ p0]) simp_all
  then have mem0: "fix_record 2020 100 (example_row 2020) \<in> set (rows msg_fom)" by simp
  from fix_cost_decay_by_vintage [OF ret mem0] obtain h' i' j' k' ct' where
    ct': "costs_tot 2021 2100 (tech example_proj h' i' j' k') = Inr ct'"
    and key': "fix_key (fix_record 2020 100 (example_row 2020)) = (h', i', j', k')"
    and old: "year_act (fix_record 2020 100 (example_row 2020)) \<le> 2020 \<longrightarrow>
       (\<exists>p\<in>set (rows ct'). year p = year_act (fix_record 2020 100 (example_row 2020)) \<and>
          fix_row.value (fix_record 2020 100 (example_row 2020)) = Some (fix_cost p))"
    by (elim exE conjE)
  from old have c': "\<exists>p\<in>set (rows ct'). year p = 2020 \<and>
      fix_row.value (fix_record 2020 100 (example_row 2020)) = Some (fix_cost p)"
    by (simp del: fix_record_sel(4) add: fix_record_sel(1,2))
  have second: "\<exists>h i j k ct.
        costs_tot 2021 2100 (tech example_proj h i j k) = Inr ct \<and>
        fix_key (fix_record 2020 100 (example_row 2020)) = (h, i, j, k) \<and>
        (\<exists>p\<in>set (rows ct). year p = 2020 \<and>
           fix_row.value (fix_record 2020 100 (example_row 2020)) = Some (fix_cost p))"
    using ct' key' c'
    by (intro exI [of _ h'] exI [of _ i'] exI [of _ j'] exI [of _ k'] exI [of _ ct'] conjI)
  from ret mem first mem0 second show ?thesis
    by (intro exI [of _ msg_inv] exI [of _ msg_fom] conjI)
qed

text \<open>
  With the base year 2020 and the sample projection, whose fixed cost is 100 at 2020
  and 95 at 2025, the record of vintage 2025 at the activity year 2030 has the value
  95 times 0.9975 to the power 5, more than 3 below 100 times 0.9975 to the power 10.
\<close>

theorem fix_cost_decay_from_base_year_counterexample:
  "\<exists>msg_inv msg_fom.
     create_message_inputs 2020 2100 example_proj = Inr (msg_inv, msg_fom) \<and>
     fix_cost (example_row 2020) = 100 \<and>
     fix_record 2025 95 (example_row 2030) \<in> set (rows msg_fom) \<and>
     year_act (fix_record 2025 95 (example_row 2030)) = 2030 \<and>
     fix_row.value (fix_record 2025 95 (example_row 2030)) = Some (95 * (1 - 0.0025) ^ 5) \<and>
     (95::real) * (1 - 0.0025) ^ 5 < 100 * (1 - 0.0025) ^ nat (2030 - 2020) - 3"
proof -
  have B1: "(1965::int) < 2020" and B2: "(2020::int) \<le> 2025" by simp_all
  from example_returns [OF B1] obtain msg_inv msg_fom where
    ret: "create_message_inputs 2020 2100 example_proj = Inr (msg_inv, msg_fom)"
    by (elim exE)
  from example_costs_tot [OF B1] obtain ct where
    ct: "costs_tot 2020 2100 (tech example_proj ''updated'' ''SSP2'' ''coal_ppl'' ''R12_NAM'')
      = Inr ct" by (elim exE)
  have p: "example_row 2030 \<in> set (rows ct)" by (rule example_ct_own [OF ct]) simp_all
  have "fix_record 2025 (100 - real_of_int (2025 - 2020)) (example_row 2030)
      \<in> set (rows msg_fom)"
    by (rule example_fom_member [OF B2 ret ct _ _ _ p]) simp_all
  then have mem: "fix_record 2025 95 (example_row 2030) \<in> set (rows msg_fom)" by simp
  have f: "fix_cost (example_row 2020) = 100" by simp
  have y: "year_act (fix_record 2025 95 (example_row 2030)) = 2030" by simp
  have v: "fix_row.value (fix_record 2025 95 (example_row 2030)) = Some (95 * (1 - 0.0025) ^ 5)"
    by (simp add: map_of_decay_frame)
  have ne: "(95::real) * (1 - 0.0025) ^ 5 < 100 * (1 - 0.0025) ^ nat (2030 - 2020) - 3"
    by (simp add: power_divide)
  from ret f mem y v ne show ?thesis
    by (intro exI [of _ msg_inv] exI [of _ msg_fom] conjI)
qed

lemma create_message_inputs_empty:
  "rows df = [] \<Longrightarrow> create_message_inputs B L df = Inl ValueError"
  by (simp add: create_message_inputs_def groups_def unique_def pd_concat_def)

lemma create_message_inputs_no_anchor:
  assumes ne: "rows df \<noteq> []" and B: "1965 < B" and L: "2020 \<le> L" "L < 2110"
    and na: "\<forall>p\<in>set (rows df). year p \<noteq> 2020"
  shows "create_message_inputs B L df = Inl IndexError"
proof -
  from groups_not_Nil [OF ne] obtain g gs where gs: "groups df = g # gs"
    by (cases "groups df") auto
  obtain h i j k where g: "g = (h, i, j, k)" by (cases g) auto
  have "hist_years B \<noteq> []" "fut_years L \<noteq> []"
    using B L by (simp_all add: hist_years_not_Nil fut_years_not_Nil)
  then obtain ct where ct: "costs_tot B L (tech df h i j k) = Inr ct"
    by (auto simp: costs_tot_Inr)
  have no: "year q \<noteq> 2020" if "q \<in> set (rows ct)" for q
    using that na L unfolding in_costs_tot [OF ct] by (auto simp: rows_tech fut_years_iff)
  then have "[r \<leftarrow> rows ct. 1960 \<le> year r \<and> year r = 2020] = []"
    by (auto simp: filter_empty_conv)
  then have "init_val (query (\<lambda>r. 1960 \<le> year r) ct) 1960 = Inl IndexError"
    by (simp add: init_val_def query_def first_value_def conj_commute)
  then have "fom_updated ct 1960 = Inl IndexError"
    by (simp add: fom_updated_def Let_def)
  then have "for_each (fom_updated ct) seq_years = Inl IndexError"
    by (simp add: seq_years_list)
  with ct have "tech_results B L df g = Inl IndexError"
    by (simp add: tech_results_def g)
  then show ?thesis by (simp add: create_message_inputs_def gs)
qed

theorem create_message_inputs_columns_witness:
  "complete_projection example_proj \<and> (1965::int) < 2021 \<and> (2100::int) < 2105 \<and>
   (\<exists>msg_inv msg_fom.
      create_message_inputs 2021 2100 example_proj = Inr (msg_inv, msg_fom) \<and>
      columns msg_inv = [''scenario_version'', ''scenario'', ''node_loc'', ''technology'',
                         ''year_vtg'', ''value'', ''unit''] \<and>
      columns msg_fom = [''scenario_version'', ''scenario'', ''node_loc'', ''technology'',
                         ''year_vtg'', ''year_act'', ''value'', ''unit''] \<and>
      inv_record (example_row 2030) \<in> set (rows msg_inv) \<and>
      inv_row.unit (inv_record (example_row 2030)) = ''USD/kWa'' \<and>
      fix_record 2025 95 (example_row 2030) \<in> set (rows msg_fom) \<and>
      fix_row.unit (fix_record 2025 95 (example_row 2030)) = ''USD/kWa'')"
proof -
  note inst = create_message_inputs_columns [where df = example_proj and B = 2021 and L = 2100]
  have B1: "(1965::int) < 2021" and B2: "(2021::int) \<le> 2025" by simp_all
  have pre: "complete_projection example_proj \<and> (1965::int) < 2021 \<and> (2100::int) < 2105"
    using example_complete by simp
  from inst [THEN conjunct1, THEN mp, OF pre] obtain msg_inv msg_fom where
    ret: "create_message_inputs 2021 2100 example_proj = Inr (msg_inv, msg_fom)"
    by (elim exE)
  note res = inst [THEN conjunct2, THEN spec, THEN spec, THEN mp, OF ret]
  note cols = res [THEN conjunct1] res [THEN conjunct2, THEN conjunct1]
  note ui = res [THEN conjunct2, THEN conjunct2, THEN conjunct1]
  note uf = res [THEN conjunct2, THEN conjunct2, THEN conjunct2]
  from example_costs_tot [OF B1] obtain ct where
    ct: "costs_tot 2021 2100 (tech example_proj ''updated'' ''SSP2'' ''coal_ppl'' ''R12_NAM'')
      = Inr ct" by (elim exE)
  have p: "example_row 2030 \<in> set (rows ct)" by (rule example_ct_own [OF ct]) simp_all
  have "fix_record 2025 (100 - real_of_int (2025 - 2020)) (example_row 2030)
      \<in> set (rows msg_fom)"
    by (rule example_fom_member [OF B2 ret ct _ _ _ p]) simp_all
  then have mem: "fix_record 2025 95 (example_row 2030) \<in> set (rows msg_fom)" by simp
  have memi: "inv_record (example_row 2030) \<in> set (rows msg_inv)"
    by (rule example_inv_member [OF ret ct p])
  from ui memi have u1: "inv_row.unit (inv_record (example_row 2030)) = ''USD/kWa''"
    by (rule bspec)
  from uf mem have u2: "fix_row.unit (fix_record 2025 95 (example_row 2030)) = ''USD/kWa''"
    by (rule bspec)
  from pre ret cols memi u1 mem u2 show ?thesis
    by (intro conjI exI [of _ msg_inv] exI [of _ msg_fom]) (elim conjE, assumption)+
qed

text \<open>
  The function does not always return: on a projection with no rows the final
  \<^verbatim>\<open>pd.concat\<close> raises \<^verbatim>\<open>ValueError\<close>, and on a projection without a 2020 record the
  lookup of the initial value raises \<^verbatim>\<open>IndexError\<close>.
\<close>

theorem create_message_inputs_always_returns_counterexample:
  "create_message_inputs 2021 2100 (example_proj\<lparr>rows := []\<rparr>) = Inl ValueError \<and>
   create_message_inputs 2021 2100
     (example_proj\<lparr>rows := [p \<leftarrow> rows example_proj. year p \<noteq> 2020]\<rparr>) = Inl IndexError"
proof
  show "create_message_inputs 2021 2100 (example_proj\<lparr>rows := []\<rparr>) = Inl ValueError"
    by (rule create_message_inputs_empty) simp
  have "example_row 2025 \<in> set (rows example_proj)" by (rule example_row_member) simp_all
  moreover have "year (example_row 2025) \<noteq> 2020" by simp
  ultimately have "\<exists>p\<in>set (rows example_proj). year p \<noteq> 2020" by (rule bexI [rotated])
  then have "[p \<leftarrow> rows example_proj. year p \<noteq> 2020] \<noteq> []"
    by (simp add: filter_empty_conv)
  then have ne: "rows (example_proj\<lparr>rows := [p \<leftarrow> rows example_proj. year p \<noteq> 2020]\<rparr>) \<noteq> []"
    by simp
  show "create_message_inputs 2021 2100
     (example_proj\<lparr>rows := [p \<leftarrow> rows example_proj. year p \<noteq> 2020]\<rparr>) = Inl IndexError"
    by (rule create_message_inputs_no_anchor [OF ne]) simp_all
qed

section \<open>The reference region, the learning rate and the scenario selector\<close>

lemma resolve_ref_region_default:
  "node_up \<in> set valid_nodes \<Longrightarrow> resolve_ref_region node_up None = Some (node_up @ ''_NAM'')"
  by (auto simp: resolve_ref_region_def valid_nodes_def)

text \<open>
  Claim C2. For a valid node, with no reference region given the stages are run with
  the default of the resolution, the upper-cased node followed by \<^verbatim>\<open>_NAM\<close>: R11_NAM
  for R11, R12_NAM for R12, R20_NAM for R20. With a reference region given, the stages
  are run with that region instead of the default, whatever the node: its case is
  normalised by \<^verbatim>\<open>upper()\<close>, as the node's is, so a region written in upper case is
  handed on as it is.
\<close>

theorem reference_region_resolved:
  assumes "str_upper sel_node \<in> {''R11'', ''R12'', ''R20''}"
  shows "get_cost_projections st sel_node None b v s m c f
           = run_stages st sel_node (str_upper sel_node @ ''_NAM'') b v s m c
       \<and> get_cost_projections st sel_node (Some given) b v s m c f
           = run_stages st sel_node (str_upper given) b v s m c
       \<and> (str_upper given = given \<longrightarrow>
            get_cost_projections st sel_node (Some given) b v s m c f
              = run_stages st sel_node given b v s m c)
       \<and> resolve_ref_region ''R11'' None = Some ''R11_NAM''
       \<and> resolve_ref_region ''R12'' None = Some ''R12_NAM''
       \<and> resolve_ref_region ''R20'' None = Some ''R20_NAM''"
proof -
  from assms have valid: "str_upper sel_node \<in> set valid_nodes"
    by (simp add: valid_nodes_def)
  have none: "get_cost_projections st sel_node None b v s m c f
      = run_stages st sel_node (str_upper sel_node @ ''_NAM'') b v s m c"
    using valid by (simp add: get_cost_projections_def resolve_ref_region_default)
  have some: "get_cost_projections st sel_node (Some given) b v s m c f
      = run_stages st sel_node (str_upper given) b v s m c"
    using valid by (simp add: get_cost_projections_def resolve_ref_region_def)
  have same: "str_upper given = given \<longrightarrow>
      get_cost_projections st sel_node (Some given) b v s m c f
        = run_stages st sel_node given b v s m c"
    using some by simp
  have defaults: "resolve_ref_region ''R11'' None = Some ''R11_NAM''"
    "resolve_ref_region ''R12'' None = Some ''R12_NAM''"
    "resolve_ref_region ''R20'' None = Some ''R20_NAM''"
    by (simp_all add: resolve_ref_region_def)
  from none some same defaults show ?thesis by (intro conjI)
qed

lemma run_echo_stages:
  "run_stages echo_stages n r b v s m c = Inr (Frame r)"
  by (simp add: run_stages_def echo_stages_def)

lemma str_upper_region: "str_upper ''R12_CHN'' = ''R12_CHN''"
  by (simp add: str_upper_def char_upper_def)

theorem reference_region_resolved_witness:
  "str_upper ''r12'' \<in> {''R11'', ''R12'', ''R20''}
   \<and> get_cost_projections echo_stages ''r12'' None 2021 ''updated'' ''all'' ''convergence''
        2050 ''message'' = Inr (Frame ''R12_NAM'')
   \<and> str_upper ''R12_CHN'' = ''R12_CHN''
   \<and> get_cost_projections echo_stages ''r12'' (Some ''R12_CHN'') 2021 ''updated'' ''all''
        ''convergence'' 2050 ''message'' = Inr (Frame ''R12_CHN'')"
proof -
  have h: "str_upper ''r12'' \<in> {''R11'', ''R12'', ''R20''}"
    by (simp add: str_upper_examples)
  from reference_region_resolved [OF h, of echo_stages 2021 "''updated''" "''all''"
      "''convergence''" 2050 "''message''" "''R12_CHN''"]
  show ?thesis using h by (simp add: run_echo_stages str_upper_examples str_upper_region)
qed

text \<open>
  The case of a given region is normalised as the case of the node is: \<^verbatim>\<open>r12_chn\<close>
  reaches the stages as \<^verbatim>\<open>R12_CHN\<close>, and never as the default \<^verbatim>\<open>R12_NAM\<close>.
\<close>

lemma reference_region_lower_case:
  "get_cost_projections echo_stages ''r12'' (Some ''r12_chn'') 2021 ''updated'' ''all''
     ''convergence'' 2050 ''message'' = Inr (Frame ''R12_CHN'')"
  by (simp add: get_cost_projections_def valid_nodes_def resolve_ref_region_def
      run_echo_stages str_upper_examples)

lemma learning_projection_Some:
  assumes "ref_costs t = Some c" "cost_reductions t = Some r" "base_year \<le> y" "y \<le> last_year"
  shows "learning_projection ref_costs cost_reductions base_year last_year t y
           = Some (learning_cost c r (nat (y - base_year)))"
  using assms by (simp add: learning_projection_def)

text \<open>
  Claim C9, on the projector modelled from the spec. For a technology with a reference
  cost and a cost-reduction rate \<open>r\<close>, and for two consecutive years \<open>y\<close> and \<open>y + 1\<close> of
  the horizon, the projected cost of \<open>y + 1\<close> is the projected cost of \<open>y\<close> times
  \<open>1 - r\<close>.
\<close>

theorem learning_cost_step:
  assumes "ref_costs t = Some c" and "cost_reductions t = Some r"
    and "base_year \<le> y" and "y + 1 \<le> last_year"
  shows "\<exists>cost_y.
           learning_projection ref_costs cost_reductions base_year last_year t y = Some cost_y \<and>
           learning_projection ref_costs cost_reductions base_year last_year t (y + 1)
             = Some (cost_y * (1 - r))"
proof -
  from assms(3) have n: "nat (y + 1 - base_year) = Suc (nat (y - base_year))" by simp
  from assms have a: "learning_projection ref_costs cost_reductions base_year last_year t y
      = Some (learning_cost c r (nat (y - base_year)))"
    by (intro learning_projection_Some) simp_all
  from assms have "learning_projection ref_costs cost_reductions base_year last_year t (y + 1)
      = Some (learning_cost c r (nat (y + 1 - base_year)))"
    by (intro learning_projection_Some) simp_all
  then have b: "learning_projection ref_costs cost_reductions base_year last_year t (y + 1)
      = Some (learning_cost c r (nat (y - base_year)) * (1 - r))"
    by (simp only: n learning_cost.simps)
  from a b show ?thesis by (intro exI conjI)
qed

theorem learning_cost_step_witness:
  "[''coal_ppl'' \<mapsto> (1000::real)] ''coal_ppl'' = Some 1000 \<and>
   [''coal_ppl'' \<mapsto> (0.01::real)] ''coal_ppl'' = Some 0.01 \<and>
   (2020::int) \<le> 2020 \<and> (2020::int) + 1 \<le> 2100 \<and>
   (\<exists>cost_y.
      learning_projection [''coal_ppl'' \<mapsto> 1000] [''coal_ppl'' \<mapsto> 0.01] 2020 2100
        ''coal_ppl'' 2020 = Some cost_y \<and>
      learning_projection [''coal_ppl'' \<mapsto> 1000] [''coal_ppl'' \<mapsto> 0.01] 2020 2100
        ''coal_ppl'' (2020 + 1) = Some (cost_y * (1 - 0.01)))"
proof -
  have a: "[''coal_ppl'' \<mapsto> (1000::real)] ''coal_ppl'' = Some 1000"
    and b: "[''coal_ppl'' \<mapsto> (0.01::real)] ''coal_ppl'' = Some 0.01"
    and c: "(2020::int) \<le> 2020" and d: "(2020::int) + 1 \<le> 2100"
    by simp_all
  from learning_cost_step [where ref_costs = "[''coal_ppl'' \<mapsto> 1000]"
      and cost_reductions = "[''coal_ppl'' \<mapsto> 0.01]" and t = "''coal_ppl''"
      and c = 1000 and r = "0.01" and base_year = 2020 and y = 2020 and last_year = 2100,
      OF a b c d] a b c d
  show ?thesis by (intro conjI)
qed

lemma run_spec_stages:
  "run_stages (spec_stages weo learning gdp blend scenario_of surface) n r b v s m c =
     (case weo n r b of Inl e \<Rightarrow> Inl e | Inr df \<Rightarrow>
      (case learning df n r b of Inl e \<Rightarrow> Inl e | Inr l \<Rightarrow>
       (case gdp df n r b of Inl e \<Rightarrow> Inl e | Inr g \<Rightarrow>
        (case blend df l g c v of Inl e \<Rightarrow> Inl e | Inr records \<Rightarrow>
           Inr (Frame (map (surface m) (select_scenario scenario_of s records)))))))"
  by (simp add: run_stages_def spec_stages_def split: sum.splits)

lemma set_select_scenario:
  "set (select_scenario scenario_of s records) \<subseteq> set records"
  by (auto simp: select_scenario_def)

lemma select_scenario_all: "select_scenario scenario_of ''all'' records = records"
  by (simp add: select_scenario_def)

lemma run_spec_stages_subset:
  assumes "run_stages (spec_stages weo learning gdp blend scenario_of surface) n r b v ''all'' m c
      = Inr (Frame all_records)"
  shows "\<exists>records. run_stages (spec_stages weo learning gdp blend scenario_of surface) n r b v s m c
      = Inr (Frame records) \<and> set records \<subseteq> set all_records"
  using assms unfolding run_spec_stages select_scenario_all
  by (auto split: sum.splits dest: subsetD [OF set_select_scenario])

text \<open>
  Claim C8, on the selector and the formatter modelled from the spec. If the entry
  point returns the records \<open>all_records\<close> for the scenario \<^verbatim>\<open>"all"\<close>, then for every
  scenario \<open>s\<close>, the other arguments equal, it returns records that are all among
  \<open>all_records\<close>; so \<open>all_records\<close> contains the union over the scenarios.
\<close>

theorem all_scenarios_superset:
  assumes "get_cost_projections (spec_stages weo learning gdp blend scenario_of surface)
      sel_node ref b v ''all'' m c f = Inr (Frame all_records)"
  shows "\<exists>records.
           get_cost_projections (spec_stages weo learning gdp blend scenario_of surface)
             sel_node ref b v s m c f = Inr (Frame records) \<and>
           set records \<subseteq> set all_records"
proof (cases "str_upper sel_node \<in> set valid_nodes")
  case False
  with assms show ?thesis by (simp add: get_cost_projections_def)
next
  case True
  show ?thesis
  proof (cases "resolve_ref_region (str_upper sel_node) ref")
    case None
    with True assms show ?thesis by (simp add: get_cost_projections_def)
  next
    case (Some r)
    with True assms have "run_stages (spec_stages weo learning gdp blend scenario_of surface)
        sel_node r b v ''all'' m c = Inr (Frame all_records)"
      by (simp add: get_cost_projections_def)
    from run_spec_stages_subset [OF this, of s] True Some show ?thesis
      by (simp add: get_cost_projections_def)
  qed
qed

theorem all_scenarios_superset_witness:
  "get_cost_projections sample_spec_stages ''r12'' None 2021 ''updated'' ''all'' ''convergence''
     2050 ''message'' = Inr (Frame [(''SSP1'', 1), (''SSP2'', 2)]) \<and>
   (\<exists>records.
      get_cost_projections sample_spec_stages ''r12'' None 2021 ''updated'' ''SSP1''
        ''convergence'' 2050 ''message'' = Inr (Frame records) \<and>
      set records \<subseteq> set [(''SSP1'', 1), (''SSP2'', 2)])"
proof -
  have a: "get_cost_projections sample_spec_stages ''r12'' None 2021 ''updated'' ''all''
      ''convergence'' 2050 ''message'' = Inr (Frame [(''SSP1'', 1), (''SSP2'', 2)])"
    by (simp add: sample_spec_stages_def get_cost_projections_def valid_nodes_def
        resolve_ref_region_def run_spec_stages select_scenario_all str_upper_examples)
  from all_scenarios_superset [OF a [unfolded sample_spec_stages_def], of "''SSP1''"] a
  show ?thesis unfolding sample_spec_stages_def by (intro conjI)
qed

end
